theory Spec2Isabelle
  imports Complex_Main "HOL-Library.Multiset" "HOL-Library.List_Lexorder" "HOL-Library.Char_ord"
begin

section \<open>Peak detection, pick extraction and pick merging of EQNet (eqnet/utils/postprocess.py)\<close>

text \<open>
  The scores of the network are 32-bit floats. They are modelled by exact reals: the
  operations of the code on them are comparison, maximum and multiplication by 0.0 or
  1.0, all of which are exact on floats (NaN is excluded by the range [0,1] of the
  scores). Times and window lengths are computed exactly as well, so the rounding of a
  float product or quotient is not part of the model.
\<close>

subsection \<open>Tensors and errors\<close>

text \<open>A 4-D tensor: its shape and its elements. Elements outside the shape are never read.\<close>

record 'a tensor4 =
  dim0 :: nat
  dim1 :: nat
  dim2 :: nat
  dim3 :: nat
  elem :: "nat \<Rightarrow> nat \<Rightarrow> nat \<Rightarrow> nat \<Rightarrow> 'a"

datatype error = RuntimeError | IndexError | ValueError | ZeroDivisionError | OverflowError

text \<open>Python's \<open>round\<close> on a float: to the nearest integer, a tie to the even one.\<close>

definition py_round :: "real \<Rightarrow> int" where
  "py_round x =
     (let f = \<lfloor>x\<rfloor>; d = x - of_int f
      in if d < 1 / 2 then f else if 1 / 2 < d then f + 1 else if even f then f else f + 1)"

subsection \<open>detect_peaks: the suppression pass (lines 19 to 23)\<close>

text \<open>
  \<open>F.max_pool2d(scores, (kernel, 1), stride=(stride, 1), padding=(pad, 0))\<close> at output
  row \<open>t\<close>: the maximum over the rows \<open>t * stride - pad\<close> up to
  \<open>t * stride - pad + kernel - 1\<close> that lie inside the input (the padding is
  implicit and holds minus infinity, so it never wins).
\<close>

definition pool_window :: "nat \<Rightarrow> int \<Rightarrow> int \<Rightarrow> int \<Rightarrow> nat \<Rightarrow> nat list" where
  "pool_window n kern stride pad t =
     (let start = int t * stride - pad
      in [nat (max 0 start) ..< nat (min (int n) (start + kern))])"

definition max_pool :: "real tensor4 \<Rightarrow> int \<Rightarrow> int \<Rightarrow> int \<Rightarrow> nat \<Rightarrow> nat \<Rightarrow> nat \<Rightarrow> nat \<Rightarrow> real" where
  "max_pool scores kern stride pad b c t s =
     Max (set (map (\<lambda>u. elem scores b c u s) (pool_window (dim2 scores) kern stride pad t)))"

text \<open>The number of output rows of the pooling.\<close>

definition pool_rows :: "nat \<Rightarrow> int \<Rightarrow> int \<Rightarrow> int \<Rightarrow> int" where
  "pool_rows n kern stride pad = (int n + 2 * pad - kern) div stride + 1"

text \<open>
  \<open>keep = (smax == scores).float()\<close>, where \<open>smax\<close> is the pooled tensor cut to its first
  \<open>nt\<close> rows. \<open>rows\<close> is the number of rows of \<open>smax\<close>: when it is 1 the comparison
  broadcasts the single row.
\<close>

definition keep :: "real tensor4 \<Rightarrow> int \<Rightarrow> int \<Rightarrow> nat \<Rightarrow> nat \<Rightarrow> nat \<Rightarrow> nat \<Rightarrow> nat \<Rightarrow> real" where
  "keep scores kern stride rows b c t s =
     (if max_pool scores kern stride (kern div 2) b c (if rows = 1 then 0 else t) s
         = elem scores b c t s
      then 1 else 0)"

text \<open>
  Lines 19 to 23: \<open>scores * keep\<close>. The pooling refuses a kernel or stride that is
  not positive and an empty input; the comparison refuses two tensors whose numbers of
  rows differ unless one of them is 1.
\<close>

definition smax_rows :: "nat \<Rightarrow> int \<Rightarrow> int \<Rightarrow> nat" where
  "smax_rows nt kern stride = min (nat (pool_rows nt kern stride (kern div 2))) nt"

definition suppress :: "real tensor4 \<Rightarrow> int \<Rightarrow> int \<Rightarrow> error + real tensor4" where
  "suppress scores kern stride =
     (let nt = dim2 scores; pad = kern div 2
      in if kern \<le> 0 \<or> stride \<le> 0 \<or> dim1 scores = 0 \<or> nt = 0 \<or> dim3 scores = 0
         then Inl RuntimeError
         else if pool_rows nt kern stride pad \<le> 0 then Inl RuntimeError
         else
           let rows = smax_rows nt kern stride
           in if rows \<noteq> nt \<and> rows \<noteq> 1 then Inl RuntimeError
              else Inr (scores\<lparr>elem := \<lambda>b c t s.
                          elem scores b c t s * keep scores kern stride rows b c t s\<rparr>))"

subsection \<open>detect_peaks: the top-K selection (lines 25 to 35)\<close>

text \<open>
  \<open>torch.topk(xs, K)\<close> on one row: \<open>K\<close> pairs (value, position) of distinct positions,
  the values in descending order, no value left out greater than one taken. Which of
  several equal values is taken, and in which order, is not fixed by the library, so
  the selection is a parameter of \<open>detect_peaks\<close> and \<open>topk_contract\<close> is what is
  known of it.
\<close>

definition is_topk :: "real list \<Rightarrow> nat \<Rightarrow> (real \<times> nat) list \<Rightarrow> bool" where
  "is_topk xs K r \<longleftrightarrow>
     length r = K \<and> distinct (map snd r) \<and>
     list_all (\<lambda>p. snd p < length xs \<and> fst p = xs ! snd p) r \<and>
     sorted (rev (map fst r)) \<and>
     list_all (\<lambda>j. j \<in> set (map snd r) \<or> list_all (\<lambda>p. xs ! j \<le> fst p) r) [0..<length xs]"

definition topk_contract :: "(real list \<Rightarrow> nat \<Rightarrow> (real \<times> nat) list) \<Rightarrow> bool" where
  "topk_contract topk \<longleftrightarrow> (\<forall>xs K. K \<le> length xs \<longrightarrow> is_topk xs K (topk xs K))"

text \<open>One selection that meets the contract: of equal values the earliest positions.\<close>

definition topk_first :: "real list \<Rightarrow> nat \<Rightarrow> (real \<times> nat) list" where
  "topk_first xs K = take K (sort_key (\<lambda>p. - fst p) (zip xs [0..<length xs]))"

text \<open>The row of a tensor along its time axis, as \<open>torch.transpose(scores, 2, 3)\<close> lays it out.\<close>

definition time_row :: "'a tensor4 \<Rightarrow> nat \<Rightarrow> nat \<Rightarrow> nat \<Rightarrow> 'a list" where
  "time_row scores b c s = map (\<lambda>t. elem scores b c t s) [0..<dim2 scores]"

text \<open>The default of \<open>K\<close> (line 28).\<close>

definition default_K :: "nat \<Rightarrow> int" where
  "default_K nt = max (py_round (real nt * 10 / 3000)) 3"

text \<open>
  \<open>detect_peaks\<close>. The result is the pair of \<open>topk_scores\<close> and \<open>topk_inds\<close>, both of
  shape (batch, channels, stations, K). \<open>vmin\<close> is a parameter the body never reads.
  With more than one channel and an empty batch, \<open>.view(batch, chn - 1, ns, -1)\<close> raises:
  the last dimension of a tensor without elements cannot be inferred.
  \<open>torch.topk\<close> refuses a \<open>K\<close> outside \<open>0..nt\<close>. \<open>topk_inds % nt\<close> is written out.
\<close>

definition detect_peaks ::
  "(real list \<Rightarrow> nat \<Rightarrow> (real \<times> nat) list) \<Rightarrow> real tensor4 \<Rightarrow> real \<Rightarrow> int \<Rightarrow> int \<Rightarrow> int
     \<Rightarrow> error + (real tensor4 \<times> nat tensor4)" where
  "detect_peaks topk scores vmin kern stride K =
     (case suppress scores kern stride of
        Inl e \<Rightarrow> Inl e
      | Inr kept \<Rightarrow>
          let batch = dim0 kept; chn = dim1 kept; nt = dim2 kept; ns = dim3 kept;
              K' = (if K = 0 then default_K nt else K);
              first = (if chn = 1 then 0 else 1)
          in if chn \<noteq> 1 \<and> batch = 0 then Inl RuntimeError
             else if K' < 0 \<or> int nt < K' then Inl RuntimeError
             else Inr
               (\<lparr>dim0 = batch, dim1 = chn - first, dim2 = ns, dim3 = nat K',
                 elem = \<lambda>b c s k. fst (topk (time_row kept b (c + first) s) (nat K') ! k)\<rparr>,
                \<lparr>dim0 = batch, dim1 = chn - first, dim2 = ns, dim3 = nat K',
                 elem = \<lambda>b c s k. snd (topk (time_row kept b (c + first) s) (nat K') ! k) mod nt\<rparr>))"

text \<open>
  The row \<open>x[i, j, k]\<close> of a tensor along its last axis, and the peaks of one batch
  element, class and station as pairs (time index, score).
\<close>

definition last_row :: "'a tensor4 \<Rightarrow> nat \<Rightarrow> nat \<Rightarrow> nat \<Rightarrow> 'a list" where
  "last_row x i j k = map (\<lambda>n. elem x i j k n) [0..<dim3 x]"

definition peak_set ::
  "error + (real tensor4 \<times> nat tensor4) \<Rightarrow> nat \<Rightarrow> nat \<Rightarrow> nat \<Rightarrow> error + (nat \<times> real) list" where
  "peak_set r i j k =
     (case r of Inl e \<Rightarrow> Inl e
      | Inr (topk_scores, topk_inds) \<Rightarrow> Inr (zip (last_row topk_inds i j k) (last_row topk_scores i j k)))"

text \<open>
  The window of the specification: the maximum score over the samples \<open>t - pad\<close> to
  \<open>t + pad\<close> that lie in the valid time range of the same batch element, class and
  station.
\<close>

definition centered_max :: "real tensor4 \<Rightarrow> int \<Rightarrow> nat \<Rightarrow> nat \<Rightarrow> nat \<Rightarrow> nat \<Rightarrow> real" where
  "centered_max scores pad b c t s =
     Max (set (map (\<lambda>u. elem scores b c u s)
       (filter (\<lambda>u. int t - pad \<le> int u \<and> int u \<le> int t + pad) [0..<dim2 scores])))"

definition plateau_scores :: "real tensor4" where
  "plateau_scores = \<lparr>dim0 = 1, dim1 = 1, dim2 = 5, dim3 = 1,
     elem = \<lambda>b c t s. [0.1, 0.8, 0.8, 0.8, 0.1] ! t\<rparr>"

text \<open>A single peak of 0.9 between two samples of 0.2: one batch element, one class, one station.\<close>

definition lone_peak_scores :: "real tensor4" where
  "lone_peak_scores = \<lparr>dim0 = 1, dim1 = 1, dim2 = 3, dim3 = 1,
     elem = \<lambda>b c t s. [0.2, 0.9, 0.2] ! t\<rparr>"

text \<open>
  The channel of the scores that channel \<open>c\<close> of the result of \<open>detect_peaks\<close> is
  selected from (lines 29 to 32), and the samples of a row that survive the suppression.
\<close>

definition source_channel :: "'a tensor4 \<Rightarrow> nat \<Rightarrow> nat" where
  "source_channel scores c = (if dim1 scores = 1 then c else c + 1)"

definition survivors :: "real tensor4 \<Rightarrow> int \<Rightarrow> int \<Rightarrow> nat \<Rightarrow> nat \<Rightarrow> nat \<Rightarrow> nat list" where
  "survivors scores kern stride b c s =
     filter (\<lambda>t. keep scores kern stride (smax_rows (dim2 scores) kern stride) b c t s = 1)
       [0..<dim2 scores]"

text \<open>The score of a sample after the suppression: its own when it survived, 0 when it did not.\<close>

definition kept_score :: "real tensor4 \<Rightarrow> int \<Rightarrow> int \<Rightarrow> nat \<Rightarrow> nat \<Rightarrow> nat \<Rightarrow> nat \<Rightarrow> real" where
  "kept_score scores kern stride b c t s =
     (if t \<in> set (survivors scores kern stride b c s) then elem scores b c t s else 0)"

text \<open>
  Two tensors of two classes that differ in the background channel 0 only; channel 1 is
  the single peak of above.
\<close>

definition two_class_scores :: "real tensor4" where
  "two_class_scores = \<lparr>dim0 = 1, dim1 = 2, dim2 = 3, dim3 = 1,
     elem = \<lambda>b c t s. (if c = 0 then [0.8, 0.1, 0.8] else [0.2, 0.9, 0.2]) ! t\<rparr>"

definition two_class_scores' :: "real tensor4" where
  "two_class_scores' = \<lparr>dim0 = 1, dim1 = 2, dim2 = 3, dim3 = 1,
     elem = \<lambda>b c t s. (if c = 0 then [0.5, 0.5, 0.5] else [0.2, 0.9, 0.2]) ! t\<rparr>"

subsection \<open>Formatting numbers and timestamps\<close>

text \<open>
  The formats of Python that \<open>extract_picks\<close> uses. A float is an exact real here, so a
  formatted value is the exact value rounded half to even at the last digit kept.
\<close>

function digits :: "int \<Rightarrow> string" where
  "digits n = (if n < 10 then [char_of (48 + n)] else digits (n div 10) @ [char_of (48 + n mod 10)])"
  by pat_completeness auto
termination
  by (relation "measure nat") auto

text \<open>\<open>%0wd\<close> on a number that is not negative: zeros in front up to the width.\<close>

definition zero_pad :: "nat \<Rightarrow> int \<Rightarrow> string" where
  "zero_pad w n = replicate (w - length (digits n)) CHR ''0'' @ digits n"

text \<open>\<open>f"{n:04d}"\<close>: the sign counts in the width.\<close>

definition fmt_04d :: "int \<Rightarrow> string" where
  "fmt_04d n = (if n < 0 then CHR ''-'' # zero_pad 3 (- n) else zero_pad 4 n)"

text \<open>\<open>f"{x:.3f}"\<close>.\<close>

definition fmt_3f :: "real \<Rightarrow> string" where
  "fmt_3f x =
     (let m = py_round (\<bar>x\<bar> * 1000)
      in (if x < 0 then ''-'' else []) @ digits (m div 1000) @ ''.'' @ zero_pad 3 (m mod 1000))"

text \<open>
  \<open>f"{x:.3e}"\<close>: the decimal exponent of a positive number is found by scaling it into
  the interval from 1 to 10, in at most as many steps as a double has decimal exponents.
\<close>

fun scale_exponent :: "nat \<Rightarrow> real \<Rightarrow> int \<Rightarrow> int" where
  "scale_exponent 0 x e = e"
| "scale_exponent (Suc fuel) x e =
     (if 10 \<le> x then scale_exponent fuel (x / 10) (e + 1)
      else if x < 1 then scale_exponent fuel (x * 10) (e - 1)
      else e)"

definition decimal_exponent :: "real \<Rightarrow> int" where
  "decimal_exponent x = (if x \<le> 0 then 0 else scale_exponent 400 x 0)"

definition fmt_3e :: "real \<Rightarrow> string" where
  "fmt_3e x =
     (let e0 = decimal_exponent \<bar>x\<bar>;
          m0 = py_round (\<bar>x\<bar> / 10 powi e0 * 1000);
          e = (if m0 = 10000 then e0 + 1 else e0);
          m = (if x = 0 then 0 else if m0 = 10000 then 1000 else m0)
      in (if x < 0 then ''-'' else []) @ digits (m div 1000) @ ''.'' @ zero_pad 3 (m mod 1000)
         @ ''e'' @ (if e < 0 then ''-'' else ''+'') @ zero_pad 2 \<bar>e\<bar>)"

text \<open>A naive \<open>datetime\<close> of Python (proleptic Gregorian calendar, years 1 to 9999).\<close>

record datetime =
  d_year :: int
  d_month :: int
  d_day :: int
  d_hour :: int
  d_minute :: int
  d_second :: int
  d_microsecond :: int

definition is_leap :: "int \<Rightarrow> bool" where
  "is_leap y \<longleftrightarrow> y mod 4 = 0 \<and> (y mod 100 \<noteq> 0 \<or> y mod 400 = 0)"

definition days_in_month :: "int \<Rightarrow> int \<Rightarrow> int" where
  "days_in_month y m =
     (if m = 2 then (if is_leap y then 29 else 28)
      else if m = 4 \<or> m = 6 \<or> m = 9 \<or> m = 11 then 30 else 31)"

definition days_before_year :: "int \<Rightarrow> int" where
  "days_before_year y = (y - 1) * 365 + (y - 1) div 4 - (y - 1) div 100 + (y - 1) div 400"

definition days_before_month :: "int \<Rightarrow> int \<Rightarrow> int" where
  "days_before_month y m = sum_list (map (days_in_month y) [1..m - 1])"

definition ymd2ord :: "int \<Rightarrow> int \<Rightarrow> int \<Rightarrow> int" where
  "ymd2ord y m d = days_before_year y + days_before_month y m + d"

text \<open>The date of an ordinal, day 1 being 0001-01-01 (\<open>_ord2ymd\<close> of the library).\<close>

definition ord2ymd :: "int \<Rightarrow> int \<times> int \<times> int" where
  "ord2ymd n0 =
     (let n = n0 - 1;
          n400 = n div 146097; n = n mod 146097;
          n100 = n div 36524; n = n mod 36524;
          n4 = n div 1461; n = n mod 1461;
          n1 = n div 365; n = n mod 365;
          y = n400 * 400 + 1 + n100 * 100 + n4 * 4 + n1
      in if n1 = 4 \<or> n100 = 4 then (y - 1, 12, 31)
         else
           let m = (n + 50) div 32;
               p = days_before_month y m;
               m' = (if n < p then m - 1 else m);
               p' = (if n < p then p - days_in_month y (m - 1) else p)
           in (y, m', n - p' + 1))"

text \<open>
  \<open>datetime.fromisoformat\<close> on the forms \<open>YYYY-MM-DD\<close> and
  \<open>YYYY-MM-DD*HH[:MM[:SS[.fff[fff]]]]\<close>, where \<open>*\<close> is any one character. A string with
  a UTC offset is not in the model; it is refused like any other string.
\<close>

definition number :: "string \<Rightarrow> int option" where
  "number s =
     (if s \<noteq> [] \<and> list_all (\<lambda>c. CHR ''0'' \<le> c \<and> c \<le> CHR ''9'') s
      then Some (foldl (\<lambda>a c. 10 * a + (of_char c - 48)) 0 s) else None)"

definition parse_date :: "string \<Rightarrow> (int \<times> int \<times> int) option" where
  "parse_date s =
     (if length s = 10 \<and> s ! 4 = CHR ''-'' \<and> s ! 7 = CHR ''-'' then
        (case (number (take 4 s), number (take 2 (drop 5 s)), number (drop 8 s)) of
           (Some y, Some m, Some d) \<Rightarrow>
             if 1 \<le> y \<and> 1 \<le> m \<and> m \<le> 12 \<and> 1 \<le> d \<and> d \<le> days_in_month y m
             then Some (y, m, d) else None
         | _ \<Rightarrow> None)
      else None)"

definition parse_fraction :: "string \<Rightarrow> int option" where
  "parse_fraction s =
     (if s = [] then Some 0
      else if hd s = CHR ''.'' \<and> length s = 4 then map_option (\<lambda>n. n * 1000) (number (tl s))
      else if hd s = CHR ''.'' \<and> length s = 7 then number (tl s)
      else None)"

definition parse_time :: "string \<Rightarrow> (int \<times> int \<times> int \<times> int) option" where
  "parse_time s =
     (let hh = number (take 2 s);
          mm = (if length s \<le> 2 then Some 0
                else if s ! 2 = CHR '':'' then number (take 2 (drop 3 s)) else None);
          ss = (if length s \<le> 5 then Some 0
                else if s ! 5 = CHR '':'' then number (take 2 (drop 6 s)) else None);
          ff = parse_fraction (drop 8 s)
      in if length s \<notin> {2, 5, 8, 12, 15} then None
         else case (hh, mm, ss, ff) of
           (Some h, Some m, Some s, Some f) \<Rightarrow>
             if h < 24 \<and> m < 60 \<and> s < 60 then Some (h, m, s, f) else None
         | _ \<Rightarrow> None)"

definition fromisoformat :: "string \<Rightarrow> error + datetime" where
  "fromisoformat s =
     (case parse_date (take 10 s) of
        None \<Rightarrow> Inl ValueError
      | Some (y, m, d) \<Rightarrow>
          if length s = 10
          then Inr \<lparr>d_year = y, d_month = m, d_day = d, d_hour = 0, d_minute = 0,
                    d_second = 0, d_microsecond = 0\<rparr>
          else case parse_time (drop 11 s) of
             None \<Rightarrow> Inl ValueError
           | Some (h, mi, se, f) \<Rightarrow>
               Inr \<lparr>d_year = y, d_month = m, d_day = d, d_hour = h, d_minute = mi,
                    d_second = se, d_microsecond = f\<rparr>)"

text \<open>\<open>str.rstrip("Z")\<close>.\<close>

definition rstrip_Z :: "string \<Rightarrow> string" where
  "rstrip_Z s = rev (dropWhile (\<lambda>c. c = CHR ''Z'') (rev s))"

text \<open>
  \<open>begin + timedelta(seconds=x)\<close>: the seconds are rounded to whole microseconds, half
  to even; a result outside the years 1 to 9999 is an OverflowError.
\<close>

definition datetime_add_seconds :: "datetime \<Rightarrow> real \<Rightarrow> error + datetime" where
  "datetime_add_seconds t x =
     (let day_us = 86400000000;
          us0 = (((ymd2ord (d_year t) (d_month t) (d_day t) * 24 + d_hour t) * 60
                   + d_minute t) * 60 + d_second t) * 1000000 + d_microsecond t;
          us = us0 + py_round (x * 1000000);
          ord = us div day_us; r = us mod day_us
      in if ord < 1 \<or> 3652059 < ord then Inl OverflowError
         else case ord2ymd ord of (y, m, d) \<Rightarrow>
           Inr \<lparr>d_year = y, d_month = m, d_day = d, d_hour = r div 3600000000,
                d_minute = r div 60000000 mod 60, d_second = r div 1000000 mod 60,
                d_microsecond = r mod 1000000\<rparr>)"

text \<open>\<open>isoformat(timespec="milliseconds")\<close>: the microseconds are cut to milliseconds.\<close>

definition isoformat_ms :: "datetime \<Rightarrow> string" where
  "isoformat_ms t =
     zero_pad 4 (d_year t) @ ''-'' @ zero_pad 2 (d_month t) @ ''-'' @ zero_pad 2 (d_day t) @ ''T''
     @ zero_pad 2 (d_hour t) @ '':'' @ zero_pad 2 (d_minute t) @ '':'' @ zero_pad 2 (d_second t)
     @ ''.'' @ zero_pad 3 (d_microsecond t div 1000)"

subsection \<open>extract_picks\<close>

text \<open>
  The arguments of \<open>extract_picks\<close> besides the two tensors. \<open>dt\<close> is one float or one
  per batch element; the two offsets are the keyword arguments \<open>begin_channel_index\<close>
  and \<open>begin_time_index\<close>.
\<close>

datatype dt_arg = Scalar real | PerBatch "real list"

record args =
  arg_file_name :: "string list option"
  arg_begin_time :: "string list option"
  arg_station_id :: "string list list option"
  arg_phases :: "string list"
  arg_vmin :: real
  arg_dt :: dt_arg
  arg_polarity_score :: "real tensor4 option"
  arg_waveform :: "real tensor4 option"
  arg_window_amp :: "real list"
  arg_begin_channel_index :: "int list option"
  arg_begin_time_index :: "int list option"

text \<open>One pick: the keys of \<open>pick_dict\<close>; the last two are present only on request.\<close>

record pick =
  station_id :: string
  phase_index :: int
  phase_time :: string
  phase_score :: string
  phase_type :: string
  phase_polarity :: "string option"
  phase_amplitude :: "string option"

text \<open>Sequencing of steps that can raise: the first error ends the computation.\<close>

definition bind :: "error + 'a \<Rightarrow> ('a \<Rightarrow> error + 'b) \<Rightarrow> error + 'b" where
  "bind m f = (case m of Inl e \<Rightarrow> Inl e | Inr x \<Rightarrow> f x)"

text \<open>A loop whose body appends to a list: the bodies run in order.\<close>

fun collect :: "(error + 'a list) list \<Rightarrow> error + 'a list" where
  "collect [] = Inr []"
| "collect (r # rs) = bind r (\<lambda>xs. bind (collect rs) (\<lambda>ys. Inr (xs @ ys)))"

text \<open>A loop whose body appends one value.\<close>

fun sequence :: "(error + 'a) list \<Rightarrow> error + 'a list" where
  "sequence [] = Inr []"
| "sequence (r # rs) = bind r (\<lambda>x. bind (sequence rs) (\<lambda>ys. Inr (x # ys)))"

text \<open>\<open>xs[n]\<close> for \<open>n \<ge> 0\<close>, and \<open>xs[n]\<close> for an integer, which counts from the end when negative.\<close>

definition nth_err :: "'a list \<Rightarrow> nat \<Rightarrow> error + 'a" where
  "nth_err xs n = (if n < length xs then Inr (xs ! n) else Inl IndexError)"

definition wrap_index :: "nat \<Rightarrow> int \<Rightarrow> error + nat" where
  "wrap_index n i =
     (if 0 \<le> i \<and> i < int n then Inr (nat i)
      else if i < 0 \<and> - int n \<le> i then Inr (nat (int n + i))
      else Inl IndexError)"

text \<open>The bounds of the slice \<open>xs[a:b]\<close> of a sequence of length \<open>n\<close>.\<close>

definition slice_bound :: "nat \<Rightarrow> int \<Rightarrow> nat" where
  "slice_bound n a = (if a < 0 then nat (max 0 (int n + a)) else min n (nat a))"

text \<open>The float of an integer, as the product \<open>index.item() * dt[i]\<close> converts its left factor.\<close>

definition float_of_int :: "int \<Rightarrow> real" where
  "float_of_int n = of_int n"

text \<open>Python's \<open>int\<close> on a float: towards zero.\<close>

definition py_int :: "real \<Rightarrow> int" where
  "py_int x = (if 0 \<le> x then \<lfloor>x\<rfloor> else \<lceil>x\<rceil>)"

text \<open>Lines 68 to 79: the per-batch lists.\<close>

definition resolve_dt :: "dt_arg \<Rightarrow> nat \<Rightarrow> error + real list" where
  "resolve_dt d batch =
     (case d of
        Scalar x \<Rightarrow> Inr (replicate batch x)
      | PerBatch xs \<Rightarrow> if length xs < batch then Inl IndexError else Inr (take batch xs))"

definition resolve_offsets :: "int list option \<Rightarrow> nat \<Rightarrow> int list" where
  "resolve_offsets v batch = (case v of Some xs \<Rightarrow> xs | None \<Rightarrow> replicate batch 0)"

text \<open>Line 82: \<open>waveform_amp = torch.max(torch.abs(waveform), dim=1)[0]\<close>, at one position.\<close>

definition waveform_amp :: "real tensor4 \<Rightarrow> nat \<Rightarrow> nat \<Rightarrow> nat \<Rightarrow> real" where
  "waveform_amp w i t k = Max (set (map (\<lambda>c. \<bar>elem w i c t k\<bar>) [0..<dim1 w]))"

text \<open>Lines 85 and 86.\<close>

definition resolve_window_amp :: "real list \<Rightarrow> string list \<Rightarrow> real list" where
  "resolve_window_amp wa phases =
     (if length wa = 1 then replicate (length phases) (wa ! 0) else wa)"

text \<open>Lines 95 to 101: the anchor time of batch element \<open>i\<close>.\<close>

definition begin_of :: "string list option \<Rightarrow> nat \<Rightarrow> error + datetime" where
  "begin_of begin_time i =
     (case begin_time of
        None \<Rightarrow> fromisoformat (rstrip_Z ''1970-01-01T00:00:00.000'')
      | Some bs \<Rightarrow>
          bind (nth_err bs i) (\<lambda>b.
            fromisoformat (rstrip_Z (if length b = 0 then ''1970-01-01T00:00:00.000'' else b))))"

text \<open>
  Lines 113 and 114: the indices of one group sorted ascending, each with its score.
  Indexing a tensor outside its shape raises; so does a permutation of the indices that
  is longer than the row of the scores. When two indices are equal the library does
  not fix their order; here the earlier entry comes first.
\<close>

definition sorted_group :: "int tensor4 \<Rightarrow> real tensor4 \<Rightarrow> nat \<Rightarrow> nat \<Rightarrow> nat \<Rightarrow> error + (int \<times> real) list" where
  "sorted_group topk_index topk_score i j k =
     (if dim0 topk_index \<le> i \<or> dim1 topk_index \<le> j \<or> dim2 topk_index \<le> k
         \<or> dim3 topk_score < dim3 topk_index
      then Inl IndexError
      else Inr (sort_key fst (zip (last_row topk_index i j k) (last_row topk_score i j k))))"

text \<open>Lines 137 and 138: the bounds \<open>j1\<close>, \<open>j2\<close> of the amplitude window of entry \<open>ii\<close>.\<close>

definition amp_window :: "(int \<times> real) list \<Rightarrow> nat \<Rightarrow> int \<Rightarrow> int \<times> int" where
  "amp_window topk_ijk ii window_amp_i =
     (let j1 = fst (topk_ijk ! ii);
          j2 = (if int ii < int (length topk_ijk) - 1
                then min (j1 + window_amp_i) (fst (topk_ijk ! (ii + 1)))
                else j1 + window_amp_i)
      in (j1, j2))"

text \<open>Line 139: the maximum of \<open>waveform_amp[i, j1:j2, k]\<close>; an empty slice has none.\<close>

definition amplitude :: "real tensor4 \<Rightarrow> nat \<Rightarrow> nat \<Rightarrow> int \<times> int \<Rightarrow> error + real" where
  "amplitude w i k jj =
     (if dim0 w \<le> i \<or> dim3 w \<le> k then Inl IndexError
      else
        let ts = [slice_bound (dim2 w) (fst jj) ..< slice_bound (dim2 w) (snd jj)]
        in if ts = [] then Inl RuntimeError
           else Inr (Max (set (map (\<lambda>t. waveform_amp w i t k) ts))))"

text \<open>Line 134: \<open>polarity_score[i, 0, index, k]\<close>.\<close>

definition polarity :: "real tensor4 \<Rightarrow> nat \<Rightarrow> int \<Rightarrow> nat \<Rightarrow> error + real" where
  "polarity p i index k =
     (if dim0 p \<le> i \<or> dim1 p = 0 \<or> dim3 p \<le> k then Inl IndexError
      else bind (wrap_index (dim2 p) index) (\<lambda>t. Inr (elem p i 0 t k)))"

text \<open>
  Lines 119 to 139: the pick of entry \<open>ii\<close> of the sorted group \<open>topk_ijk\<close>. \<open>dt_i\<close> is
  \<open>dt[i]\<close>, \<open>begin_i\<close> the anchor time, \<open>station_i\<close> the name of the station and
  \<open>window_amp_i\<close> the nominal length of the amplitude window in samples.
\<close>

definition make_pick ::
  "args \<Rightarrow> int list \<Rightarrow> real \<Rightarrow> datetime \<Rightarrow> string \<Rightarrow> int \<Rightarrow> nat \<Rightarrow> nat \<Rightarrow> nat
     \<Rightarrow> (int \<times> real) list \<Rightarrow> nat \<Rightarrow> error + pick" where
  "make_pick a begin_time_index dt_i begin_i station_i window_amp_i i j k topk_ijk ii =
     (let index = fst (topk_ijk ! ii); score = snd (topk_ijk ! ii)
      in bind (nth_err begin_time_index i) (\<lambda>offset.
         bind (datetime_add_seconds begin_i (float_of_int index * dt_i)) (\<lambda>pick_time.
         bind (nth_err (arg_phases a) j) (\<lambda>phase.
         bind (case arg_polarity_score a of
                 None \<Rightarrow> Inr None
               | Some p \<Rightarrow> bind (polarity p i index k) (\<lambda>v. Inr (Some (fmt_3f v)))) (\<lambda>pol.
         bind (case arg_waveform a of
                 None \<Rightarrow> Inr None
               | Some w \<Rightarrow> bind (amplitude w i k (amp_window topk_ijk ii window_amp_i))
                            (\<lambda>v. Inr (Some (fmt_3e v)))) (\<lambda>amp.
         Inr \<lparr>station_id = station_i, phase_index = index + offset,
              phase_time = isoformat_ms pick_time, phase_score = fmt_3f score,
              phase_type = phase, phase_polarity = pol, phase_amplitude = amp\<rparr>))))))"

text \<open>Lines 117 and 118: the body of the loop over the sorted group, at entry \<open>ii\<close>.\<close>

definition entry_picks ::
  "args \<Rightarrow> int list \<Rightarrow> real \<Rightarrow> datetime \<Rightarrow> string \<Rightarrow> int \<Rightarrow> nat \<Rightarrow> nat \<Rightarrow> nat
     \<Rightarrow> (int \<times> real) list \<Rightarrow> nat \<Rightarrow> error + pick list" where
  "entry_picks a begin_time_index dt_i begin_i station_i window_amp_i i j k topk_ijk ii =
     (if arg_vmin a < snd (topk_ijk ! ii)
      then bind (make_pick a begin_time_index dt_i begin_i station_i window_amp_i i j k topk_ijk ii)
             (\<lambda>p. Inr [p])
      else Inr [])"

text \<open>Lines 108 to 111: the name of station \<open>k\<close>.\<close>

definition station_of :: "args \<Rightarrow> int list \<Rightarrow> nat \<Rightarrow> nat \<Rightarrow> error + string" where
  "station_of a begin_channel_index i k =
     (case arg_station_id a of
        None \<Rightarrow> bind (nth_err begin_channel_index i) (\<lambda>c. Inr (fmt_04d (int k + c)))
      | Some ids \<Rightarrow> bind (nth_err ids k) (\<lambda>row. nth_err row i))"

text \<open>Lines 107 to 141: the picks of one batch element, class and station.\<close>

definition group_picks ::
  "int tensor4 \<Rightarrow> real tensor4 \<Rightarrow> args \<Rightarrow> int list \<Rightarrow> int list \<Rightarrow> real \<Rightarrow> datetime \<Rightarrow> int
     \<Rightarrow> nat \<Rightarrow> nat \<Rightarrow> nat \<Rightarrow> error + pick list" where
  "group_picks topk_index topk_score a begin_channel_index begin_time_index dt_i begin_i
       window_amp_i i j k =
     bind (station_of a begin_channel_index i k) (\<lambda>station_i.
     bind (sorted_group topk_index topk_score i j k) (\<lambda>topk_ijk.
       collect (map (entry_picks a begin_time_index dt_i begin_i station_i window_amp_i i j k
                       topk_ijk)
                  [0..<length topk_ijk])))"

text \<open>Lines 104 and 105: the nominal window length of class \<open>j\<close>, when a waveform is given.\<close>

definition window_amp_of :: "args \<Rightarrow> real \<Rightarrow> nat \<Rightarrow> error + int" where
  "window_amp_of a dt_i j =
     (case arg_waveform a of
        None \<Rightarrow> Inr 0
      | Some w \<Rightarrow>
          bind (nth_err (resolve_window_amp (arg_window_amp a) (arg_phases a)) j) (\<lambda>wa.
            if dt_i = 0 then Inl ZeroDivisionError else Inr (py_int (wa / dt_i))))"

text \<open>Lines 103 to 141: the picks of one batch element and class.\<close>

definition class_picks ::
  "int tensor4 \<Rightarrow> real tensor4 \<Rightarrow> args \<Rightarrow> int list \<Rightarrow> int list \<Rightarrow> real \<Rightarrow> datetime
     \<Rightarrow> nat \<Rightarrow> nat \<Rightarrow> error + pick list" where
  "class_picks topk_index topk_score a begin_channel_index begin_time_index dt_i begin_i i j =
     bind (window_amp_of a dt_i j) (\<lambda>window_amp_i.
       collect (map (group_picks topk_index topk_score a begin_channel_index begin_time_index
                       dt_i begin_i window_amp_i i j)
                  [0..<dim2 topk_score]))"

text \<open>Lines 88 to 143: \<open>picks_per_file\<close> of batch element \<open>i\<close>.\<close>

definition picks_per_file ::
  "int tensor4 \<Rightarrow> real tensor4 \<Rightarrow> args \<Rightarrow> real list \<Rightarrow> int list \<Rightarrow> int list \<Rightarrow> nat
     \<Rightarrow> error + pick list" where
  "picks_per_file topk_index topk_score a dt begin_channel_index begin_time_index i =
     bind (case arg_file_name a of None \<Rightarrow> Inr (fmt_04d (int i)) | Some fs \<Rightarrow> nth_err fs i)
       (\<lambda>file_i.
     bind (begin_of (arg_begin_time a) i) (\<lambda>begin_i.
       collect (map (class_picks topk_index topk_score a begin_channel_index begin_time_index
                       (dt ! i) begin_i i)
                  [0..<dim1 topk_score])))"

text \<open>\<open>extract_picks\<close>: one list of picks per batch element.\<close>

definition extract_picks :: "int tensor4 \<Rightarrow> real tensor4 \<Rightarrow> args \<Rightarrow> error + pick list list" where
  "extract_picks topk_index topk_score a =
     (let batch = dim0 topk_score
      in bind (resolve_dt (arg_dt a) batch) (\<lambda>dt.
         bind (case arg_waveform a of
                 None \<Rightarrow> Inr ()
               | Some w \<Rightarrow> if dim1 w = 0 then Inl IndexError else Inr ()) (\<lambda>_.
           sequence (map (picks_per_file topk_index topk_score a dt
                            (resolve_offsets (arg_begin_channel_index a) batch)
                            (resolve_offsets (arg_begin_time_index a) batch))
                       [0..<batch]))))"

text \<open>
  The indices that \<open>detect_peaks\<close> returns, as the integer tensor that \<open>extract_picks\<close>
  takes, and the two functions one after the other as the callers run them
  (\<open>extract_picks(topk_inds, topk_scores, ...)\<close>).
\<close>

definition int_tensor :: "nat tensor4 \<Rightarrow> int tensor4" where
  "int_tensor x = \<lparr>dim0 = dim0 x, dim1 = dim1 x, dim2 = dim2 x, dim3 = dim3 x,
                   elem = \<lambda>b c s k. int (elem x b c s k)\<rparr>"

definition detect_then_extract ::
  "(real list \<Rightarrow> nat \<Rightarrow> (real \<times> nat) list) \<Rightarrow> real tensor4 \<Rightarrow> int \<Rightarrow> args \<Rightarrow> error + pick list list" where
  "detect_then_extract topk scores kern a =
     bind (detect_peaks topk scores (arg_vmin a) kern 1 0)
       (\<lambda>(topk_scores, topk_inds). extract_picks (int_tensor topk_inds) topk_scores a)"

text \<open>The scenario of the specification: an impulse of 0.95 at sample 150 of channel 1.\<close>

definition impulse_scores :: "real tensor4" where
  "impulse_scores = \<lparr>dim0 = 1, dim1 = 2, dim2 = 300, dim3 = 1,
     elem = \<lambda>b c t s. if c = 1 \<and> t = 150 then 0.95 else 0\<rparr>"

definition impulse_args :: args where
  "impulse_args = \<lparr>arg_file_name = None, arg_begin_time = Some [''2024-01-01T00:00:00.000''],
     arg_station_id = None, arg_phases = [''P'', ''S''], arg_vmin = 0.5, arg_dt = Scalar 0.01,
     arg_polarity_score = None, arg_waveform = None, arg_window_amp = [10, 5],
     arg_begin_channel_index = None, arg_begin_time_index = None\<rparr>"

text \<open>
  The peaks of one batch element, class and station as \<open>extract_picks\<close> reads them: pairs
  (time index, score), sorted by time index.
\<close>

definition group_entries :: "int tensor4 \<Rightarrow> real tensor4 \<Rightarrow> nat \<Rightarrow> nat \<Rightarrow> nat \<Rightarrow> (int \<times> real) list" where
  "group_entries topk_index topk_score i j k =
     sort_key fst (zip (last_row topk_index i j k) (last_row topk_score i j k))"

text \<open>The arguments as the defaults of the signature have them, for a float \<open>dt\<close>.\<close>

definition default_args :: args where
  "default_args = \<lparr>arg_file_name = None, arg_begin_time = None, arg_station_id = None,
     arg_phases = [''P'', ''S''], arg_vmin = 0.3, arg_dt = Scalar 0.01,
     arg_polarity_score = None, arg_waveform = None, arg_window_amp = [10, 5],
     arg_begin_channel_index = None, arg_begin_time_index = None\<rparr>"

text \<open>
  One class and two stations with one peak each: station 0 at sample 5, station 1 at
  sample 2.
\<close>

definition two_station_index :: "int tensor4" where
  "two_station_index = \<lparr>dim0 = 1, dim1 = 1, dim2 = 2, dim3 = 1,
     elem = \<lambda>i j k n. if k = 0 then 5 else 2\<rparr>"

definition two_station_score :: "real tensor4" where
  "two_station_score = \<lparr>dim0 = 1, dim1 = 1, dim2 = 2, dim3 = 1,
     elem = \<lambda>i j k n. if k = 0 then 0.9 else 0.8\<rparr>"

text \<open>One group of three peaks with the scores 0.9, 0.3 and 0.2 at the samples 7, 3 and 5.\<close>

definition three_peak_index :: "int tensor4" where
  "three_peak_index = \<lparr>dim0 = 1, dim1 = 1, dim2 = 1, dim3 = 3,
     elem = \<lambda>i j k n. [7, 3, 5] ! n\<rparr>"

definition three_peak_score :: "real tensor4" where
  "three_peak_score = \<lparr>dim0 = 1, dim1 = 1, dim2 = 1, dim3 = 3,
     elem = \<lambda>i j k n. [0.9, 0.3, 0.2] ! n\<rparr>"

text \<open>The same three samples with the scores 0.9, 0.8 and 0.7, all above the default \<open>vmin\<close>.\<close>

definition sorted_peak_score :: "real tensor4" where
  "sorted_peak_score = \<lparr>dim0 = 1, dim1 = 1, dim2 = 1, dim3 = 3,
     elem = \<lambda>i j k n. [0.9, 0.8, 0.7] ! n\<rparr>"

text \<open>The defaults with \<open>begin_time_index = [1000]\<close>.\<close>

definition offset_args :: args where
  "offset_args = default_args\<lparr>arg_begin_time_index := Some [1000]\<rparr>"






subsection \<open>merge_das_picks and merge_seismic_picks\<close>

text \<open>
  A file is its name and its lines as \<open>readlines\<close> returns them. The directory listing is
  an input: the files that the glob pattern matched, in the order of the listing.
\<close>

type_synonym csv_file = "string \<times> string list"

text \<open>\<open>Path.stem\<close>: the name without its last suffix.\<close>

definition stem :: "string \<Rightarrow> string" where
  "stem name =
     (let suffix = takeWhile (\<lambda>c. c \<noteq> CHR ''.'') (rev name)
      in if length suffix = length name \<or> suffix = [] \<or> length suffix + 1 = length name
         then name
         else take (length name - length suffix - 1) name)"

text \<open>Line 163: the event of a file, \<open>file.stem.split("_")[0]\<close>.\<close>

definition event_id :: "string \<Rightarrow> string" where
  "event_id name = takeWhile (\<lambda>c. c \<noteq> CHR ''_'') (stem name)"

text \<open>
  Lines 161 to 163: \<open>file_group[k].append(file)\<close> on a \<open>defaultdict(list)\<close>, whose keys
  keep the order in which they were first set.
\<close>

definition group_append :: "(string \<times> csv_file list) list \<Rightarrow> csv_file \<Rightarrow> (string \<times> csv_file list) list" where
  "group_append groups file =
     (let k = event_id (fst file)
      in if k \<in> set (map fst groups)
         then map (\<lambda>g. if fst g = k then (fst g, snd g @ [file]) else g) groups
         else groups @ [(k, [file])])"

definition file_group :: "csv_file list \<Rightarrow> (string \<times> csv_file list) list" where
  "file_group files = foldl group_append [] files"

text \<open>
  Lines 169 to 175: the loop over the files of one group, on their lines; \<open>header\<close> and
  \<open>picks\<close> are the variables of the loop.
\<close>

fun merge_lines :: "string list list \<Rightarrow> string option \<Rightarrow> string list \<Rightarrow> string list" where
  "merge_lines [] header picks = picks"
| "merge_lines (tmp # rest) header picks =
     (if 0 < length tmp \<and> header = None
      then merge_lines rest (Some (tmp ! 0)) ((picks @ [tmp ! 0]) @ drop 1 tmp)
      else merge_lines rest header (picks @ drop 1 tmp))"

text \<open>Lines 167 to 175 for one group: its files in sorted order.\<close>

definition merge_group :: "csv_file list \<Rightarrow> string list" where
  "merge_group files = merge_lines (map snd (sort_key fst files)) None []"

text \<open>
  \<open>merge_das_picks\<close>: the files written, each with its lines, and \<open>num_picks\<close>.
\<close>

definition merge_das_picks :: "csv_file list \<Rightarrow> int \<Rightarrow> csv_file list \<times> nat" where
  "merge_das_picks files min_picks =
     (let groups = file_group files
      in (map (\<lambda>g. (fst g @ ''.csv'', merge_group (snd g)))
            (filter (\<lambda>g. min_picks < int (length (merge_group (snd g)))) groups),
          sum_list (map (\<lambda>g. length (merge_group (snd g))) groups)))"

text \<open>
  Lines 191 to 199: the loop of \<open>merge_seismic_picks\<close> over the lines of the files, with
  the flag \<open>first_non_empty\<close>, what was written so far and \<open>num_picks\<close>.
\<close>

fun write_lines :: "string list list \<Rightarrow> bool \<Rightarrow> string list \<Rightarrow> int \<Rightarrow> string list \<times> int" where
  "write_lines [] first_non_empty out num_picks = (out, num_picks)"
| "write_lines (lines # rest) first_non_empty out num_picks =
     (if first_non_empty \<and> 0 < length lines
      then write_lines rest False ((out @ [lines ! 0]) @ drop 1 lines)
             (num_picks + max 0 (int (length lines) - 1))
      else write_lines rest first_non_empty (out @ drop 1 lines)
             (num_picks + max 0 (int (length lines) - 1)))"

text \<open>\<open>merge_seismic_picks\<close>: the lines of the merged file and \<open>num_picks\<close>.\<close>

definition merge_seismic_picks :: "csv_file list \<Rightarrow> string list \<times> int" where
  "merge_seismic_picks csv_files = write_lines (map snd (sort_key fst csv_files)) True [] 0"

text \<open>
  The two readings of the header of a merged file: the first line of the first file
  that has a line, and the first line of the first file that has a line after its
  first.
\<close>

definition first_line :: "string list list \<Rightarrow> string list" where
  "first_line contents = (case filter (\<lambda>l. l \<noteq> []) contents of [] \<Rightarrow> [] | l # _ \<Rightarrow> [hd l])"

definition first_line_with_data :: "string list list \<Rightarrow> string list" where
  "first_line_with_data contents =
     (case filter (\<lambda>l. 1 < length l) contents of [] \<Rightarrow> [] | l # _ \<Rightarrow> [hd l])"

text \<open>The data rows of the files: the lines after the first of each.\<close>

definition data_rows :: "string list list \<Rightarrow> string list" where
  "data_rows contents = concat (map (drop 1) contents)"

text \<open>Three files of one event: one empty, one with a header only, one with a header and a row.\<close>

definition patch_files :: "csv_file list" where
  "patch_files = [(''ev_0_2.csv'', [''h2'', ''row'']), (''ev_0_1.csv'', [''h1'']), (''ev_0_0.csv'', [])]"

text \<open>One file of one event with a header and two rows.\<close>

definition two_row_files :: "csv_file list" where
  "two_row_files = [(''ev_0_0.csv'', [''h'', ''a'', ''b''])]"

section \<open>Properties\<close>

subsection \<open>The suppression pass\<close>

lemma pool_window_odd:
  assumes "0 < kern" "odd kern" "t < n"
  shows "set (pool_window n kern 1 (kern div 2) t)
           = {u. u < n \<and> int t - kern div 2 \<le> int u \<and> int u \<le> int t + kern div 2}"
proof -
  from assms(2) have k: "kern = 2 * (kern div 2) + 1" by presburger
  have p: "0 \<le> kern div 2" using assms(1) by simp
  show ?thesis
    unfolding pool_window_def Let_def using k p assms(3) by auto
qed

lemma pool_rows_odd: "odd kern \<Longrightarrow> pool_rows n kern 1 (kern div 2) = int n"
  unfolding pool_rows_def by (simp; presburger)

lemma suppress_odd:
  assumes "0 < kern" "odd kern" "dim1 sc \<noteq> 0" "dim2 sc \<noteq> 0" "dim3 sc \<noteq> 0"
  shows "suppress sc kern 1 = Inr (sc\<lparr>elem := \<lambda>b c t s.
                          elem sc b c t s * keep sc kern 1 (dim2 sc) b c t s\<rparr>)"
  using assms unfolding suppress_def smax_rows_def Let_def by (simp add: pool_rows_odd)

lemma keep_odd:
  assumes "0 < kern" "odd kern" "t < dim2 sc"
  shows "keep sc kern 1 (dim2 sc) b c t s = 
    (if elem sc b c t s = Max {elem sc b c u s | u. u < dim2 sc \<and> int t - kern div 2 \<le> int u \<and> int u \<le> int t + kern div 2} then 1 else 0)"
proof -
  have t0: "dim2 sc = 1 \<Longrightarrow> t = 0" using assms(3) by simp
  have "set (map (\<lambda>u. elem sc b c u s) (pool_window (dim2 sc) kern 1 (kern div 2) t)) = 
     {elem sc b c u s | u. u < dim2 sc \<and> int t - kern div 2 \<le> int u \<and> int u \<le> int t + kern div 2}"
    using pool_window_odd[OF assms] by auto
  then show ?thesis unfolding keep_def max_pool_def using t0 by auto
qed

lemma centered_max_set:
  "centered_max sc pad b c t s =
     Max {elem sc b c u s | u. u < dim2 sc \<and> int t - pad \<le> int u \<and> int u \<le> int t + pad}"
proof -
  have "set (map (\<lambda>u. elem sc b c u s)
       (filter (\<lambda>u. int t - pad \<le> int u \<and> int u \<le> int t + pad) [0..<dim2 sc])) =
     {elem sc b c u s | u. u < dim2 sc \<and> int t - pad \<le> int u \<and> int u \<le> int t + pad}"
    by auto
  then show ?thesis unfolding centered_max_def by simp
qed

lemma centered_max_ge:
  assumes "u < dim2 sc" "int t - pad \<le> int u" "int u \<le> int t + pad"
  shows "elem sc b c u s \<le> centered_max sc pad b c t s"
  unfolding centered_max_def using assms by (intro Max_ge) auto

lemma centered_max_eqI:
  assumes "t < dim2 sc" "0 \<le> pad"
    and "\<And>u. u < dim2 sc \<Longrightarrow> int t - pad \<le> int u \<Longrightarrow> int u \<le> int t + pad \<Longrightarrow> elem sc b c u s \<le> elem sc b c t s"
  shows "elem sc b c t s = centered_max sc pad b c t s"
proof -
  let ?A = "set (map (\<lambda>u. elem sc b c u s)
       (filter (\<lambda>u. int t - pad \<le> int u \<and> int u \<le> int t + pad) [0..<dim2 sc]))"
  have "elem sc b c t s \<in> ?A" using assms(1,2) by auto
  moreover have "\<forall>x\<in>?A. x \<le> elem sc b c t s" using assms(3) by auto
  ultimately have "Max ?A = elem sc b c t s" by (intro Max_eqI) auto
  then show ?thesis unfolding centered_max_def by simp
qed

text \<open>
  Claim C1. For a positive odd kernel (and stride 1) the suppression pass returns a
  tensor of the shape of the scores in which a sample survives (\<open>keep = 1\<close>) if and
  only if its score equals the maximum over the centred window \<open>[t - pad, t + pad]\<close>
  cut to the valid time range of its own batch element, class and station; a sample
  that does not survive is zeroed and a survivor keeps its score; and when three
  adjacent samples carry the same value and no sample within \<open>pad\<close> of them is
  greater, all three survive.
\<close>

theorem C1_suppression:
  assumes "0 < kern" and "odd kern"
    and "dim1 scores \<noteq> 0" and "dim2 scores \<noteq> 0" and "dim3 scores \<noteq> 0"
  shows "\<exists>kept. suppress scores kern 1 = Inr kept \<and>
      dim0 kept = dim0 scores \<and> dim1 kept = dim1 scores \<and>
      dim2 kept = dim2 scores \<and> dim3 kept = dim3 scores \<and>
      (\<forall>b c t s. t < dim2 scores \<longrightarrow>
         (keep scores kern 1 (dim2 scores) b c t s = 1 \<longleftrightarrow>
            elem scores b c t s = centered_max scores (kern div 2) b c t s) \<and>
         (keep scores kern 1 (dim2 scores) b c t s \<noteq> 1 \<longrightarrow>
            keep scores kern 1 (dim2 scores) b c t s = 0 \<and> elem kept b c t s = 0) \<and>
         (keep scores kern 1 (dim2 scores) b c t s = 1 \<longrightarrow>
            elem kept b c t s = elem scores b c t s)) \<and>
      (\<forall>b c t s. t + 2 < dim2 scores \<and>
           elem scores b c (t + 1) s = elem scores b c t s \<and>
           elem scores b c (t + 2) s = elem scores b c t s \<and>
           (\<forall>u < dim2 scores. int t - kern div 2 \<le> int u \<and> int u \<le> int t + 2 + kern div 2
                \<longrightarrow> elem scores b c u s \<le> elem scores b c t s) \<longrightarrow>
         keep scores kern 1 (dim2 scores) b c t s = 1 \<and>
         keep scores kern 1 (dim2 scores) b c (t + 1) s = 1 \<and>
         keep scores kern 1 (dim2 scores) b c (t + 2) s = 1)"
proof -
  let ?kept = "scores\<lparr>elem := \<lambda>b c t s.
                  elem scores b c t s * keep scores kern 1 (dim2 scores) b c t s\<rparr>"
  have pad: "0 \<le> kern div 2" using assms(1) by simp
  have k: "\<And>b c t s. t < dim2 scores \<Longrightarrow> keep scores kern 1 (dim2 scores) b c t s =
      (if elem scores b c t s = centered_max scores (kern div 2) b c t s then 1 else 0)"
    using keep_odd[OF assms(1,2)] by (simp add: centered_max_set)
  have s: "suppress scores kern 1 = Inr ?kept"
    using suppress_odd[OF assms] .
  have plateau: "keep scores kern 1 (dim2 scores) b c t s = 1 \<and>
         keep scores kern 1 (dim2 scores) b c (t + 1) s = 1 \<and>
         keep scores kern 1 (dim2 scores) b c (t + 2) s = 1"
    if h: "t + 2 < dim2 scores" "elem scores b c (t + 1) s = elem scores b c t s"
        "elem scores b c (t + 2) s = elem scores b c t s"
        "\<forall>u < dim2 scores. int t - kern div 2 \<le> int u \<and> int u \<le> int t + 2 + kern div 2
                \<longrightarrow> elem scores b c u s \<le> elem scores b c t s"
    for b c t s
  proof -
    have "elem scores b c (t + i) s = centered_max scores (kern div 2) b c (t + i) s"
      if "i \<le> 2" for i
    proof (rule centered_max_eqI[OF _ pad])
      show "t + i < dim2 scores" using h(1) that by simp
    next
      fix u assume u: "u < dim2 scores" "int (t + i) - kern div 2 \<le> int u"
        "int u \<le> int (t + i) + kern div 2"
      have e: "elem scores b c (t + i) s = elem scores b c t s"
      proof -
        from that consider "i = 0" | "i = 1" | "i = 2" by linarith
        then show ?thesis using h(2,3) by cases simp_all
      qed
      have "elem scores b c u s \<le> elem scores b c t s"
        using h(4) u that by auto
      then show "elem scores b c u s \<le> elem scores b c (t + i) s" using e by simp
    qed
    from this[of 0] this[of 1] this[of 2] show ?thesis
      using k h(1) by simp
  qed
  show ?thesis
    apply (rule exI[of _ ?kept])
    using s k plateau by simp
qed

text \<open>The plateau 0.1, 0.8, 0.8, 0.8, 0.1 under a kernel of 3: the three middle samples survive.\<close>

theorem C1_suppression_witness:
  "(0::int) < 3 \<and> odd (3::int) \<and> dim1 plateau_scores \<noteq> 0 \<and> dim2 plateau_scores \<noteq> 0 \<and>
   dim3 plateau_scores \<noteq> 0 \<and>
   (\<exists>kept. suppress plateau_scores 3 1 = Inr kept \<and>
      time_row kept 0 0 0 = [0, 0.8, 0.8, 0.8, 0]) \<and>
   map (\<lambda>t. keep plateau_scores 3 1 5 0 0 t 0) [0, 1, 2, 3, 4] = [0, 1, 1, 1, 0]"
proof -
  have d: "dim1 plateau_scores \<noteq> 0" "dim2 plateau_scores \<noteq> 0" "dim3 plateau_scores \<noteq> 0"
    "dim2 plateau_scores = 5"
    by (simp_all add: plateau_scores_def)
  have c: "map (\<lambda>t. centered_max plateau_scores 1 0 0 t 0) [0, 1, 2, 3, 4] = [0.8, 0.8, 0.8, 0.8, 0.8]"
    by (simp add: centered_max_def plateau_scores_def upt_rec)
  have e: "map (\<lambda>t. elem plateau_scores 0 0 t 0) [0, 1, 2, 3, 4] = [0.1, 0.8, 0.8, 0.8, 0.1]"
    by (simp add: plateau_scores_def)
  from C1_suppression[of 3 plateau_scores, OF _ _ d(1,2,3)]
  obtain kept where kept: "suppress plateau_scores 3 1 = Inr kept" "dim2 kept = 5"
    and a: "\<And>b c t s. t < 5 \<Longrightarrow>
         (keep plateau_scores 3 1 5 b c t s = 1 \<longleftrightarrow>
            elem plateau_scores b c t s = centered_max plateau_scores 1 b c t s) \<and>
         (keep plateau_scores 3 1 5 b c t s \<noteq> 1 \<longrightarrow>
            keep plateau_scores 3 1 5 b c t s = 0 \<and> elem kept b c t s = 0) \<and>
         (keep plateau_scores 3 1 5 b c t s = 1 \<longrightarrow>
            elem kept b c t s = elem plateau_scores b c t s)"
    unfolding d(4) by auto
  from a[of 0 0 0 0] a[of 1 0 0 0] a[of 2 0 0 0] a[of 3 0 0 0] a[of 4 0 0 0] c e
  have "map (\<lambda>t. keep plateau_scores 3 1 5 0 0 t 0) [0, 1, 2, 3, 4] = [0, 1, 1, 1, 0]"
    and "map (\<lambda>t. elem kept 0 0 t 0) [0, 1, 2, 3, 4] =  [0, 0.8, 0.8, 0.8, 0]"
    by auto
  moreover have "[0..<5] = [0, 1, 2, 3, 4::nat]"
    by (simp add: upt_conv_Cons eval_nat_numeral)
  ultimately show ?thesis using kept d
    by (simp add: time_row_def)
qed

subsection \<open>The result of detect_peaks\<close>

lemma suppress_Inr:
  assumes "suppress sc kern stride = Inr kept"
  shows "kept = sc\<lparr>elem := \<lambda>b c t s.
            elem sc b c t s * keep sc kern stride (smax_rows (dim2 sc) kern stride) b c t s\<rparr>"
    and "dim1 sc \<noteq> 0" and "dim2 sc \<noteq> 0" and "dim3 sc \<noteq> 0" and "0 < kern" and "0 < stride"
  using assms unfolding suppress_def Let_def by (auto split: if_splits)

lemma detect_peaks_unfold:
  assumes "suppress sc kern stride = Inr kept"
  shows "detect_peaks topk sc vmin kern stride K =
    (if dim1 sc \<noteq> 1 \<and> dim0 sc = 0 then Inl RuntimeError
     else if (if K = 0 then default_K (dim2 sc) else K) < 0 \<or>
        int (dim2 sc) < (if K = 0 then default_K (dim2 sc) else K) then Inl RuntimeError
     else Inr
       (\<lparr>dim0 = dim0 sc, dim1 = dim1 sc - (if dim1 sc = 1 then 0 else 1), dim2 = dim3 sc,
         dim3 = nat (if K = 0 then default_K (dim2 sc) else K),
         elem = \<lambda>b c s k. fst (topk (time_row kept b (c + (if dim1 sc = 1 then 0 else 1)) s)
                   (nat (if K = 0 then default_K (dim2 sc) else K)) ! k)\<rparr>,
        \<lparr>dim0 = dim0 sc, dim1 = dim1 sc - (if dim1 sc = 1 then 0 else 1), dim2 = dim3 sc,
         dim3 = nat (if K = 0 then default_K (dim2 sc) else K),
         elem = \<lambda>b c s k. snd (topk (time_row kept b (c + (if dim1 sc = 1 then 0 else 1)) s)
                   (nat (if K = 0 then default_K (dim2 sc) else K)) ! k) mod dim2 sc\<rparr>))"
proof -
  have dims: "dim0 kept = dim0 sc" "dim1 kept = dim1 sc" "dim2 kept = dim2 sc" "dim3 kept = dim3 sc"
    by (simp_all add: suppress_Inr(1)[OF assms])
  show ?thesis
    unfolding detect_peaks_def Let_def by (simp add: assms dims)
qed

lemma detect_peaks_Inr:
  assumes "detect_peaks topk sc vmin kern stride K = Inr (ts, ti)"
  obtains kept K' where "suppress sc kern stride = Inr kept"
    and "int K' = (if K = 0 then default_K (dim2 sc) else K)" and "K' \<le> dim2 sc"
    and "dim1 sc = 1 \<or> dim0 sc \<noteq> 0"
    and "ts = \<lparr>dim0 = dim0 sc, dim1 = dim1 sc - (if dim1 sc = 1 then 0 else 1), dim2 = dim3 sc, dim3 = K',
                 elem = \<lambda>b c s k. fst (topk (time_row kept b (c + (if dim1 sc = 1 then 0 else 1)) s) K' ! k)\<rparr>"
    and "ti = \<lparr>dim0 = dim0 sc, dim1 = dim1 sc - (if dim1 sc = 1 then 0 else 1), dim2 = dim3 sc, dim3 = K',
                 elem = \<lambda>b c s k. snd (topk (time_row kept b (c + (if dim1 sc = 1 then 0 else 1)) s) K' ! k) mod dim2 sc\<rparr>"
proof -
  from assms obtain kept where k: "suppress sc kern stride = Inr kept"
    unfolding detect_peaks_def by (auto split: sum.splits)
  define K0 where "K0 = (if K = 0 then default_K (dim2 sc) else K)"
  from assms have r: "\<not> (K0 < 0 \<or> int (dim2 sc) < K0)"
    and v: "dim1 sc = 1 \<or> dim0 sc \<noteq> 0"
    unfolding detect_peaks_unfold[OF k] K0_def by (auto split: if_splits)
  show thesis
  proof (rule that[of kept "nat K0"])
    show "suppress sc kern stride = Inr kept" by (rule k)
    show "int (nat K0) = (if K = 0 then default_K (dim2 sc) else K)"
      using r by (simp add: K0_def)
    show "nat K0 \<le> dim2 sc" using r by linarith
    show "dim1 sc = 1 \<or> dim0 sc \<noteq> 0" by (rule v)
    from assms r v show "ts = \<lparr>dim0 = dim0 sc, dim1 = dim1 sc - (if dim1 sc = 1 then 0 else 1), dim2 = dim3 sc, dim3 = nat K0,
                 elem = \<lambda>b c s k. fst (topk (time_row kept b (c + (if dim1 sc = 1 then 0 else 1)) s) (nat K0) ! k)\<rparr>"
      unfolding detect_peaks_unfold[OF k] K0_def[symmetric] by (auto split: if_splits)
    from assms r v show "ti = \<lparr>dim0 = dim0 sc, dim1 = dim1 sc - (if dim1 sc = 1 then 0 else 1), dim2 = dim3 sc, dim3 = nat K0,
                 elem = \<lambda>b c s k. snd (topk (time_row kept b (c + (if dim1 sc = 1 then 0 else 1)) s) (nat K0) ! k) mod dim2 sc\<rparr>"
      unfolding detect_peaks_unfold[OF k] K0_def[symmetric] by (auto split: if_splits)
  qed
qed

lemma is_topkD:
  assumes "is_topk xs K r"
  shows "length r = K" and "distinct (map snd r)"
    and "\<And>k. k < K \<Longrightarrow> snd (r ! k) < length xs \<and> fst (r ! k) = xs ! snd (r ! k)"
    and "sorted (rev (map fst r))"
    and "\<And>j p. j < length xs \<Longrightarrow> j \<notin> snd ` set r \<Longrightarrow> p \<in> set r \<Longrightarrow> xs ! j \<le> fst p"
proof -
  show "length r = K" "distinct (map snd r)" "sorted (rev (map fst r))"
    using assms unfolding is_topk_def by simp_all
  show "snd (r ! k) < length xs \<and> fst (r ! k) = xs ! snd (r ! k)" if "k < K" for k
    using assms that unfolding is_topk_def list_all_length by simp
  show "xs ! j \<le> fst p" if "j < length xs" "j \<notin> snd ` set r" "p \<in> set r" for j p
  proof -
    from assms have "\<forall>j\<in>set [0..<length xs]. j \<in> set (map snd r) \<or> (\<forall>p\<in>set r. xs ! j \<le> fst p)"
      unfolding is_topk_def list_all_iff by blast
    with that show ?thesis by auto
  qed
qed

lemma length_time_row [simp]: "length (time_row sc b c s) = dim2 sc"
  by (simp add: time_row_def)

lemma nth_time_row [simp]: "t < dim2 sc \<Longrightarrow> time_row sc b c s ! t = elem sc b c t s"
  by (simp add: time_row_def)

lemma length_last_row [simp]: "length (last_row x i j k) = dim3 x"
  by (simp add: last_row_def)

lemma nth_last_row [simp]: "n < dim3 x \<Longrightarrow> last_row x i j k ! n = elem x i j k n"
  by (simp add: last_row_def)

lemma topk_first_contract: "topk_contract topk_first"
  unfolding topk_contract_def
proof (intro allI impI)
  fix xs :: "real list" and K :: nat
  assume K: "K \<le> length xs"
  define l where "l = sort_key (\<lambda>p. - fst p) (zip xs [0..<length xs])"
  define r where "r = take K l"
  have r: "topk_first xs K = r" by (simp add: topk_first_def r_def l_def)
  have setl: "set l = set (zip xs [0..<length xs])" by (simp add: l_def)
  have lenl: "length l = length xs" by (simp add: l_def)
  have "mset l = mset (zip xs [0..<length xs])"
    unfolding l_def by (rule mset_sort)
  then have m: "mset (map snd l) = mset (map snd (zip xs [0..<length xs]))"
    by (simp only: mset_map)
  have "distinct (map snd (zip xs [0..<length xs]))"
    by (simp add: map_snd_zip)
  then have dl: "distinct (map snd l)"
    using m mset_eq_imp_distinct_iff by blast
  have sl: "sorted (map (\<lambda>p. - fst p) l)" by (simp add: l_def)
  have mem: "snd p < length xs \<and> fst p = xs ! snd p" if "p \<in> set l" for p
  proof -
    from that setl obtain i where "i < length xs" "p = (xs ! i, i)"
      by (auto simp: set_zip)
    then show ?thesis by simp
  qed
  have l_split: "l = r @ drop K l" by (simp add: r_def)
  have 1: "length r = K" using K lenl by (simp add: r_def)
  have 2: "distinct (map snd r)"
    using dl by (simp add: r_def take_map[symmetric] distinct_take)
  have 3: "list_all (\<lambda>p. snd p < length xs \<and> fst p = xs ! snd p) r"
    unfolding list_all_iff using mem by (auto simp: r_def dest: in_set_takeD)
  have "sorted (map (\<lambda>p. - fst p) r)"
    using sl by (simp add: r_def take_map[symmetric] sorted_wrt_take)
  then have 4: "sorted (rev (map fst r))"
    by (induction r) (auto simp: sorted_append)
  have 5: "list_all (\<lambda>j. j \<in> set (map snd r) \<or> list_all (\<lambda>p. xs ! j \<le> fst p) r) [0..<length xs]"
    unfolding list_all_iff
  proof (intro ballI)
    fix j assume "j \<in> set [0..<length xs]"
    then have j: "j < length xs" by simp
    show "j \<in> set (map snd r) \<or> (\<forall>p\<in>set r. xs ! j \<le> fst p)"
    proof (cases "j \<in> set (map snd r)")
      case False
      have "(xs ! j, j) \<in> set l" using j setl by (auto simp: set_zip)
      then have "(xs ! j, j) \<in> set r \<union> set (drop K l)"
        using l_split by (metis set_append)
      moreover have "(xs ! j, j) \<notin> set r"
        using False by force
      ultimately have d: "(xs ! j, j) \<in> set (drop K l)" by simp
      have "sorted (map (\<lambda>p. - fst p) r @ map (\<lambda>p. - fst p) (drop K l))"
        using sl l_split by (metis map_append)
      then have "\<forall>a\<in>set r. \<forall>b\<in>set (drop K l). - fst a \<le> - fst b"
        by (auto simp: sorted_append)
      with d have "\<forall>a\<in>set r. xs ! j \<le> fst a" by fastforce
      then show ?thesis by simp
    qed simp
  qed
  show "is_topk xs K (topk_first xs K)"
    unfolding r is_topk_def using 1 2 3 4 5 by simp
qed

lemma detect_peaks_rowsE:
  assumes c: "topk_contract topk"
    and d: "detect_peaks topk sc vmin kern stride K = Inr (ts, ti)"
  obtains kept K' where "suppress sc kern stride = Inr kept"
    and "int K' = (if K = 0 then default_K (dim2 sc) else K)" and "K' \<le> dim2 sc"
    and "dim0 ts = dim0 sc" and "dim0 ti = dim0 sc"
    and "dim1 ts = dim1 sc - (if dim1 sc = 1 then 0 else 1)"
    and "dim1 ti = dim1 sc - (if dim1 sc = 1 then 0 else 1)"
    and "dim2 ts = dim3 sc" and "dim2 ti = dim3 sc" and "dim3 ts = K'" and "dim3 ti = K'"
    and "\<And>b c s. is_topk (time_row kept b (source_channel sc c) s) K'
            (zip (last_row ts b c s) (last_row ti b c s))"
proof -
  from d obtain kept K' where k: "suppress sc kern stride = Inr kept"
    and K': "int K' = (if K = 0 then default_K (dim2 sc) else K)" "K' \<le> dim2 sc"
    and nb: "dim1 sc = 1 \<or> dim0 sc \<noteq> 0"
    and ts: "ts = \<lparr>dim0 = dim0 sc, dim1 = dim1 sc - (if dim1 sc = 1 then 0 else 1), dim2 = dim3 sc, dim3 = K',
                 elem = \<lambda>b c s k. fst (topk (time_row kept b (c + (if dim1 sc = 1 then 0 else 1)) s) K' ! k)\<rparr>"
    and ti: "ti = \<lparr>dim0 = dim0 sc, dim1 = dim1 sc - (if dim1 sc = 1 then 0 else 1), dim2 = dim3 sc, dim3 = K',
                 elem = \<lambda>b c s k. snd (topk (time_row kept b (c + (if dim1 sc = 1 then 0 else 1)) s) K' ! k) mod dim2 sc\<rparr>"
    by (rule detect_peaks_Inr)
  have nt: "dim2 kept = dim2 sc" by (simp add: suppress_Inr(1)[OF k])
  have rows: "is_topk (time_row kept b (source_channel sc c) s) K'
            (zip (last_row ts b c s) (last_row ti b c s))" for b c s
  proof -
    define xs where "xs = time_row kept b (source_channel sc c) s"
    define r where "r = topk xs K'"
    have len: "length xs = dim2 sc" by (simp add: xs_def nt)
    have t: "is_topk xs K' r"
      using c K'(2) len unfolding topk_contract_def r_def by simp
    note f = is_topkD[OF t]
    have "last_row ts b c s = map (\<lambda>k. fst (r ! k)) [0..<K']"
      by (auto simp add: last_row_def ts r_def xs_def source_channel_def)
    also have "\<dots> = map fst r"
      using f(1) by (simp add: list_eq_iff_nth_eq)
    finally have a: "last_row ts b c s = map fst r" .
    have "last_row ti b c s = map (\<lambda>k. snd (r ! k) mod dim2 sc) [0..<K']"
      by (auto simp add: last_row_def ti r_def xs_def source_channel_def)
    also have "\<dots> = map (\<lambda>k. snd (r ! k)) [0..<K']"
      using f(3) len by simp
    also have "\<dots> = map snd r"
      using f(1) by (simp add: list_eq_iff_nth_eq)
    finally have b: "last_row ti b c s = map snd r" .
    have "zip (last_row ts b c s) (last_row ti b c s) = r"
      unfolding a b by (simp add: zip_map_fst_snd)
    with t show ?thesis by (simp add: xs_def)
  qed
  show thesis
    by (rule that[OF k K' _ _ _ _ _ _ _ _ rows]) (simp_all add: ts ti)
qed

lemma detect_peaks_rows:
  assumes "topk_contract topk"
    and "detect_peaks topk sc vmin kern stride K = Inr (ts, ti)"
  shows "\<exists>kept K'. suppress sc kern stride = Inr kept \<and>
      int K' = (if K = 0 then default_K (dim2 sc) else K) \<and> K' \<le> dim2 sc \<and>
      dim3 ts = K' \<and> dim3 ti = K' \<and>
      (\<forall>b c s. is_topk (time_row kept b (source_channel sc c) s) K'
            (zip (last_row ts b c s) (last_row ti b c s)))"
  by (rule detect_peaks_rowsE[OF assms]) blast

lemma detect_peaks_dims:
  assumes "detect_peaks topk sc vmin kern stride K = Inr (ts, ti)"
  shows "dim0 ts = dim0 sc" and "dim0 ti = dim0 sc"
    and "dim1 ts = dim1 sc - (if dim1 sc = 1 then 0 else 1)"
    and "dim1 ti = dim1 sc - (if dim1 sc = 1 then 0 else 1)"
    and "dim2 ts = dim3 sc" and "dim2 ti = dim3 sc" and "dim3 ti = dim3 ts"
    and "int (dim3 ts) = (if K = 0 then default_K (dim2 sc) else K)"
    and "dim3 ts \<le> dim2 sc" and "dim1 sc = 1 \<or> dim0 sc \<noteq> 0"
  by (rule detect_peaks_Inr[OF assms]; simp)+

lemma keep_cases: "keep sc kern stride rows b c t s = 1 \<or> keep sc kern stride rows b c t s = 0"
  by (simp add: keep_def)

lemma kept_elem:
  assumes "suppress sc kern stride = Inr kept"
  shows "elem kept b c t s =
     (if keep sc kern stride (smax_rows (dim2 sc) kern stride) b c t s = 1
      then elem sc b c t s else 0)"
  using keep_cases[of sc kern stride "smax_rows (dim2 sc) kern stride" b c t s]
  by (auto simp add: suppress_Inr(1)[OF assms])

lemma kept_dim2:
  assumes "suppress sc kern stride = Inr kept"
  shows "dim2 kept = dim2 sc"
  by (subst suppress_Inr(1)[OF assms]) simp

lemma peak_entry:
  assumes c: "topk_contract topk"
    and d: "detect_peaks topk sc vmin kern stride K = Inr (ts, ti)"
    and k: "k < dim3 ts"
  shows "elem ti b c s k < dim2 sc"
    and "elem ts b c s k =
      (if keep sc kern stride (smax_rows (dim2 sc) kern stride) b (source_channel sc c)
            (elem ti b c s k) s = 1
       then elem sc b (source_channel sc c) (elem ti b c s k) s else 0)"
proof -
  from detect_peaks_rows[OF c d] obtain kept K' where kept: "suppress sc kern stride = Inr kept"
    and d3: "dim3 ts = K'" "dim3 ti = K'"
    and t: "is_topk (time_row kept b (source_channel sc c) s) K'
            (zip (last_row ts b c s) (last_row ti b c s))"
    by blast
  from is_topkD(3)[OF t, of k] k d3
  have a: "elem ti b c s k < dim2 kept"
    and b: "elem ts b c s k = time_row kept b (source_channel sc c) s ! elem ti b c s k"
    by simp_all
  from a show "elem ti b c s k < dim2 sc" by (simp add: kept_dim2[OF kept])
  from a b show "elem ts b c s k =
      (if keep sc kern stride (smax_rows (dim2 sc) kern stride) b (source_channel sc c)
            (elem ti b c s k) s = 1
       then elem sc b (source_channel sc c) (elem ti b c s k) s else 0)"
    by (simp add: kept_elem[OF kept])
qed

text \<open>
  Claim C3, as the code has it. Every returned pair (time index, score) carries the score
  of the suppressed tensor at that index: the input score at the same batch element,
  source channel, time index and station when the sample survived the suppression, and
  0 when it did not. So a returned score that is not 0 equals the input score there.
\<close>

theorem C3_peak_scores:
  assumes "topk_contract topk"
    and "detect_peaks topk scores vmin kern stride K = Inr (topk_scores, topk_inds)"
  shows "\<forall>b c s k. k < dim3 topk_scores \<longrightarrow>
      elem topk_inds b c s k < dim2 scores \<and>
      elem topk_scores b c s k =
        (if keep scores kern stride (smax_rows (dim2 scores) kern stride) b
              (source_channel scores c) (elem topk_inds b c s k) s = 1
         then elem scores b (source_channel scores c) (elem topk_inds b c s k) s else 0) \<and>
      (elem topk_scores b c s k \<noteq> 0 \<longrightarrow>
         elem topk_scores b c s k
           = elem scores b (source_channel scores c) (elem topk_inds b c s k) s)"
  using peak_entry[OF assms] by (auto split: if_splits)

lemma upt3: "[0..<3] = [0, 1, 2]"
  by (simp add: upt_conv_Cons eval_nat_numeral)

text \<open>
  Claim C3 as stated fails: with the scores 0.2, 0.9, 0.2, a kernel of 3 and the default
  \<open>K = 3\<close>, the pair returned for time index 0 has score 0, and the input score at
  index 0 is 0.2.
\<close>

theorem C3_counterexample:
  "peak_set (detect_peaks topk_first lone_peak_scores 0.3 3 1 0) 0 0 0
     = Inr [(1, 0.9), (0, 0), (2, 0)] \<and>
   elem lone_peak_scores 0 0 0 0 = 0.2"
  by code_simp

text \<open>On the same input the first returned pair is the peak, with its input score.\<close>

theorem C3_peak_scores_witness:
  "topk_contract topk_first \<and>
   (\<exists>ts ti. detect_peaks topk_first lone_peak_scores 0.3 3 1 0 = Inr (ts, ti) \<and>
      last_row ti 0 0 0 = [1, 0, 2] \<and> last_row ts 0 0 0 = [0.9, 0, 0] \<and>
      elem ts 0 0 0 0 = elem lone_peak_scores 0 (source_channel lone_peak_scores 0) (elem ti 0 0 0 0) 0)"
proof -
  have p: "peak_set (detect_peaks topk_first lone_peak_scores 0.3 3 1 0) 0 0 0
     = Inr [(1, 0.9), (0, 0), (2, 0)]"
    by code_simp
  then obtain ts ti where d: "detect_peaks topk_first lone_peak_scores 0.3 3 1 0 = Inr (ts, ti)"
    by (auto simp: peak_set_def split: sum.splits)
  from p d have z: "zip (last_row ti 0 0 0) (last_row ts 0 0 0) = [(1, 0.9), (0, 0), (2, 0)]"
    by (simp add: peak_set_def)
  have l: "length (last_row ti 0 0 0) = length (last_row ts 0 0 0)"
    using detect_peaks_dims(7)[OF d] by simp
  have "map fst (zip (last_row ti 0 0 0) (last_row ts 0 0 0)) = last_row ti 0 0 0"
    and "map snd (zip (last_row ti 0 0 0) (last_row ts 0 0 0)) = last_row ts 0 0 0"
    using l by (simp_all del: length_last_row)
  then have r: "last_row ti 0 0 0 = [1, 0, 2]" "last_row ts 0 0 0 = [0.9, 0, 0]"
    unfolding z by simp_all
  then have k: "dim3 ts = 3" using length_last_row[of ts 0 0 0] by simp
  have e: "elem ts 0 0 0 0 = 0.9"
    using nth_last_row[of 0 ts 0 0 0] r(2) k by simp
  from C3_peak_scores[OF topk_first_contract d] k e
  have "elem ts 0 0 0 0 = elem lone_peak_scores 0 (source_channel lone_peak_scores 0) (elem ti 0 0 0 0) 0"
    by simp
  with d r topk_first_contract show ?thesis by blast
qed

lemma suppress_agree:
  assumes d: "dim0 sc' = dim0 sc" "dim1 sc' = dim1 sc" "dim2 sc' = dim2 sc" "dim3 sc' = dim3 sc"
    and e: "\<forall>b c t s. 1 \<le> c \<longrightarrow> elem sc' b c t s = elem sc b c t s"
  shows "(\<exists>e. suppress sc kern stride = Inl e \<and> suppress sc' kern stride = Inl e) \<or>
     (\<exists>kept kept'. suppress sc kern stride = Inr kept \<and> suppress sc' kern stride = Inr kept' \<and>
        (\<forall>b c s. 1 \<le> c \<longrightarrow> time_row kept' b c s = time_row kept b c s))"
proof -
  have mp: "max_pool sc' kern stride p b c t s = max_pool sc kern stride p b c t s"
    if "1 \<le> c" for p b c t s
    using that by (simp add: max_pool_def d e)
  have kp: "keep sc' kern stride rows b c t s = keep sc kern stride rows b c t s"
    if "1 \<le> c" for rows b c t s
    using that by (simp add: keep_def mp e)
  show ?thesis
    unfolding suppress_def Let_def d by (simp add: time_row_def d kp e)
qed

text \<open>
  Claim C8. With two or more class channels the result of \<open>detect_peaks\<close> does not
  depend on channel 0: two score tensors of the same shape that agree on the channels
  from 1 on give the same result. The result has one channel less than the scores, and
  its channel \<open>c\<close> is a top-K selection from channel \<open>c + 1\<close> of the suppressed scores.
  With one class channel the result has one channel, selected from that channel.
\<close>

theorem C8_background_channel_dropped:
  "(2 \<le> dim1 scores \<longrightarrow>
      (\<forall>scores'. dim0 scores' = dim0 scores \<and> dim1 scores' = dim1 scores \<and>
           dim2 scores' = dim2 scores \<and> dim3 scores' = dim3 scores \<and>
           (\<forall>b c t s. 1 \<le> c \<longrightarrow> elem scores' b c t s = elem scores b c t s) \<longrightarrow>
         detect_peaks topk scores' vmin kern stride K = detect_peaks topk scores vmin kern stride K)) \<and>
   (\<forall>topk_scores topk_inds.
      topk_contract topk \<and>
      detect_peaks topk scores vmin kern stride K = Inr (topk_scores, topk_inds) \<longrightarrow>
      (\<exists>kept. suppress scores kern stride = Inr kept \<and>
         (2 \<le> dim1 scores \<longrightarrow>
            dim1 topk_scores = dim1 scores - 1 \<and> dim1 topk_inds = dim1 scores - 1 \<and>
            (\<forall>b c s. c < dim1 scores - 1 \<longrightarrow>
               is_topk (time_row kept b (c + 1) s) (dim3 topk_scores)
                 (zip (last_row topk_scores b c s) (last_row topk_inds b c s)))) \<and>
         (dim1 scores = 1 \<longrightarrow>
            dim1 topk_scores = 1 \<and> dim1 topk_inds = 1 \<and>
            (\<forall>b s. is_topk (time_row kept b 0 s) (dim3 topk_scores)
                 (zip (last_row topk_scores b 0 s) (last_row topk_inds b 0 s))))))"
proof (intro conjI impI allI)
  fix scores' :: "real tensor4"
  assume c2: "2 \<le> dim1 scores"
  assume h: "dim0 scores' = dim0 scores \<and> dim1 scores' = dim1 scores \<and>
           dim2 scores' = dim2 scores \<and> dim3 scores' = dim3 scores \<and>
           (\<forall>b c t s. 1 \<le> c \<longrightarrow> elem scores' b c t s = elem scores b c t s)"
  then have d: "dim0 scores' = dim0 scores" "dim1 scores' = dim1 scores"
    "dim2 scores' = dim2 scores" "dim3 scores' = dim3 scores"
    and e: "\<forall>b c t s. 1 \<le> c \<longrightarrow> elem scores' b c t s = elem scores b c t s"
    by simp_all
  from c2 have n1: "dim1 scores \<noteq> 1" by simp
  from suppress_agree[OF d e, of kern stride]
  show "detect_peaks topk scores' vmin kern stride K = detect_peaks topk scores vmin kern stride K"
  proof (elim disjE exE conjE)
    fix e assume "suppress scores kern stride = Inl e" "suppress scores' kern stride = Inl e"
    then show ?thesis by (simp add: detect_peaks_def)
  next
    fix kept kept'
    assume k: "suppress scores kern stride = Inr kept" "suppress scores' kern stride = Inr kept'"
      and r: "\<forall>b c s. 1 \<le> c \<longrightarrow> time_row kept' b c s = time_row kept b c s"
    show ?thesis
      unfolding detect_peaks_unfold[OF k(1)] detect_peaks_unfold[OF k(2)] d
      using n1 r by simp
  qed
next
  fix ts ti
  assume a: "topk_contract topk \<and> detect_peaks topk scores vmin kern stride K = Inr (ts, ti)"
  then have c: "topk_contract topk" and d: "detect_peaks topk scores vmin kern stride K = Inr (ts, ti)"
    by simp_all
  from detect_peaks_rows[OF c d] obtain kept where k: "suppress scores kern stride = Inr kept"
    and t: "\<And>b c s. is_topk (time_row kept b (source_channel scores c) s) (dim3 ts)
            (zip (last_row ts b c s) (last_row ti b c s))"
    by blast
  note dims = detect_peaks_dims[OF d]
  show "\<exists>kept. suppress scores kern stride = Inr kept \<and>
         (2 \<le> dim1 scores \<longrightarrow>
            dim1 ts = dim1 scores - 1 \<and> dim1 ti = dim1 scores - 1 \<and>
            (\<forall>b c s. c < dim1 scores - 1 \<longrightarrow>
               is_topk (time_row kept b (c + 1) s) (dim3 ts)
                 (zip (last_row ts b c s) (last_row ti b c s)))) \<and>
         (dim1 scores = 1 \<longrightarrow>
            dim1 ts = 1 \<and> dim1 ti = 1 \<and>
            (\<forall>b s. is_topk (time_row kept b 0 s) (dim3 ts)
                 (zip (last_row ts b 0 s) (last_row ti b 0 s))))"
  proof (intro exI[of _ kept] conjI impI allI)
    show "suppress scores kern stride = Inr kept" by (rule k)
  next
    assume "2 \<le> dim1 scores"
    then show "dim1 ts = dim1 scores - 1" "dim1 ti = dim1 scores - 1"
      using dims(3,4) by simp_all
  next
    fix b c s assume "2 \<le> dim1 scores"
    then have "source_channel scores c = c + 1" by (simp add: source_channel_def)
    with t[of b c s] show "is_topk (time_row kept b (c + 1) s) (dim3 ts)
                 (zip (last_row ts b c s) (last_row ti b c s))" by simp
  next
    assume "dim1 scores = 1"
    then show "dim1 ts = 1" "dim1 ti = 1" using dims(3,4) by simp_all
  next
    fix b s assume "dim1 scores = 1"
    then have "source_channel scores 0 = 0" by (simp add: source_channel_def)
    with t[of b 0 s] show "is_topk (time_row kept b 0 s) (dim3 ts)
                 (zip (last_row ts b 0 s) (last_row ti b 0 s))" by simp
  qed
qed

text \<open>Two tensors that differ in channel 0 only have the same peaks, those of channel 1.\<close>

theorem C8_background_channel_dropped_witness:
  "2 \<le> dim1 two_class_scores \<and> topk_contract topk_first \<and>
   detect_peaks topk_first two_class_scores' 0.3 3 1 0
     = detect_peaks topk_first two_class_scores 0.3 3 1 0 \<and>
   peak_set (detect_peaks topk_first two_class_scores 0.3 3 1 0) 0 0 0
     = Inr [(1, 0.9), (0, 0), (2, 0)] \<and>
   (\<exists>ts ti. detect_peaks topk_first two_class_scores 0.3 3 1 0 = Inr (ts, ti) \<and>
      dim1 ts = 1 \<and> dim1 ti = 1)"
proof -
  have d: "2 \<le> dim1 two_class_scores" by (simp add: two_class_scores_def)
  have e: "dim0 two_class_scores' = dim0 two_class_scores \<and>
      dim1 two_class_scores' = dim1 two_class_scores \<and>
      dim2 two_class_scores' = dim2 two_class_scores \<and>
      dim3 two_class_scores' = dim3 two_class_scores \<and>
      (\<forall>b c t s. 1 \<le> c \<longrightarrow> elem two_class_scores' b c t s = elem two_class_scores b c t s)"
    by (simp add: two_class_scores_def two_class_scores'_def)
  note t = C8_background_channel_dropped[of two_class_scores topk_first "0.3" 3 1 0]
  have 1: "detect_peaks topk_first two_class_scores' 0.3 3 1 0
     = detect_peaks topk_first two_class_scores 0.3 3 1 0"
    by (rule t[THEN conjunct1, rule_format, OF d e])
  have p: "peak_set (detect_peaks topk_first two_class_scores 0.3 3 1 0) 0 0 0
     = Inr [(1, 0.9), (0, 0), (2, 0)]"
    by code_simp
  then obtain ts ti where r: "detect_peaks topk_first two_class_scores 0.3 3 1 0 = Inr (ts, ti)"
    by (auto simp: peak_set_def split: sum.splits)
  from t[THEN conjunct2, rule_format, OF conjI[OF topk_first_contract r]] d
  have "dim1 ts = dim1 two_class_scores - 1 \<and> dim1 ti = dim1 two_class_scores - 1"
    by blast
  then have "dim1 ts = 1 \<and> dim1 ti = 1"
    by (simp add: two_class_scores_def)
  with d topk_first_contract 1 p r show ?thesis by blast
qed

lemma suppress_stride1:
  assumes "0 < kern" "dim1 sc \<noteq> 0" "dim2 sc \<noteq> 0" "dim3 sc \<noteq> 0"
  shows "\<exists>kept. suppress sc kern 1 = Inr kept"
proof -
  have "pool_rows (dim2 sc) kern 1 (kern div 2) = int (dim2 sc) \<or>
        pool_rows (dim2 sc) kern 1 (kern div 2) = int (dim2 sc) + 1"
    unfolding pool_rows_def by (simp; presburger)
  then have "0 < pool_rows (dim2 sc) kern 1 (kern div 2)"
    and "smax_rows (dim2 sc) kern 1 = dim2 sc"
    unfolding smax_rows_def using assms(3) by auto
  then show ?thesis
    unfolding suppress_def Let_def using assms by simp
qed

lemma in_survivors:
  "t \<in> set (survivors sc kern stride b c s) \<longleftrightarrow>
     t < dim2 sc \<and> keep sc kern stride (smax_rows (dim2 sc) kern stride) b c t s = 1"
  by (auto simp: survivors_def)

lemma distinct_survivors: "distinct (survivors sc kern stride b c s)"
  by (simp add: survivors_def)

lemma length_filter_subset:
  assumes "distinct xs" "distinct ys"
  shows "length (filter (\<lambda>x. x \<in> set ys) xs) \<le> length ys"
proof -
  define zs where "zs = filter (\<lambda>x. x \<in> set ys) xs"
  have "distinct zs" using assms(1) by (simp add: zs_def)
  then have "length zs = card (set zs)" by (rule distinct_card[symmetric])
  also have "\<dots> \<le> card (set ys)" by (intro card_mono) (auto simp: zs_def)
  also have "\<dots> = length ys" using assms(2) by (rule distinct_card)
  finally show ?thesis by (simp add: zs_def)
qed

lemma kept_elem_score:
  assumes "suppress sc kern stride = Inr kept" and "t < dim2 sc"
  shows "elem kept b c t s = kept_score sc kern stride b c t s"
  using assms(2) by (simp add: kept_elem[OF assms(1)] kept_score_def in_survivors)

text \<open>
  One group of the result: the pairs are a top-K selection from the suppressed scores of
  the group.
\<close>

lemma peak_group:
  assumes c: "topk_contract topk"
    and d: "detect_peaks topk sc vmin kern stride K = Inr (ts, ti)"
  shows "length (last_row ts b c s) = dim3 ts" and "length (last_row ti b c s) = dim3 ts"
    and "distinct (last_row ti b c s)"
    and "\<forall>t \<in> set (last_row ti b c s). t < dim2 sc"
    and "sorted (rev (last_row ts b c s))"
    and "\<forall>k < dim3 ts. elem ts b c s k
            = kept_score sc kern stride b (source_channel sc c) (elem ti b c s k) s"
    and "\<forall>t < dim2 sc. t \<notin> set (last_row ti b c s) \<longrightarrow>
           (\<forall>k < dim3 ts. kept_score sc kern stride b (source_channel sc c) t s \<le> elem ts b c s k)"
proof -
  note dims = detect_peaks_dims[OF d]
  from detect_peaks_rows[OF c d] obtain kept
    where kept: "suppress sc kern stride = Inr kept"
      and t: "is_topk (time_row kept b (source_channel sc c) s) (dim3 ts)
            (zip (last_row ts b c s) (last_row ti b c s))"
    by blast
  let ?r = "zip (last_row ts b c s) (last_row ti b c s)"
  have len: "length (last_row ts b c s) = length (last_row ti b c s)"
    using dims(7) by simp
  have ms: "map snd ?r = last_row ti b c s" and mf: "map fst ?r = last_row ts b c s"
    using len by (simp_all del: length_last_row)
  show "length (last_row ts b c s) = dim3 ts" "length (last_row ti b c s) = dim3 ts"
    using dims(7) by simp_all
  from is_topkD(2)[OF t] show "distinct (last_row ti b c s)" unfolding ms .
  from is_topkD(4)[OF t] show "sorted (rev (last_row ts b c s))" unfolding mf .
  have e: "elem ti b c s k < dim2 sc" if "k < dim3 ts" for k
    using peak_entry(1)[OF c d that] .
  show "\<forall>t \<in> set (last_row ti b c s). t < dim2 sc"
    using e dims(7) by (auto simp: last_row_def)
  show v: "\<forall>k < dim3 ts. elem ts b c s k
            = kept_score sc kern stride b (source_channel sc c) (elem ti b c s k) s"
  proof (intro allI impI)
    fix k assume k: "k < dim3 ts"
    from is_topkD(3)[OF t k] k dims(7)
    have "elem ts b c s k = time_row kept b (source_channel sc c) s ! elem ti b c s k"
      by simp
    also have "\<dots> = elem kept b (source_channel sc c) (elem ti b c s k) s"
      using e[OF k] by (simp add: kept_dim2[OF kept])
    also have "\<dots> = kept_score sc kern stride b (source_channel sc c) (elem ti b c s k) s"
      by (rule kept_elem_score[OF kept e[OF k]])
    finally show "elem ts b c s k
            = kept_score sc kern stride b (source_channel sc c) (elem ti b c s k) s" .
  qed
  show "\<forall>t < dim2 sc. t \<notin> set (last_row ti b c s) \<longrightarrow>
           (\<forall>k < dim3 ts. kept_score sc kern stride b (source_channel sc c) t s \<le> elem ts b c s k)"
  proof (intro allI impI)
    fix u k assume u: "u < dim2 sc" "u \<notin> set (last_row ti b c s)" and k: "k < dim3 ts"
    have 1: "u < length (time_row kept b (source_channel sc c) s)"
      using u(1) by (simp add: kept_dim2[OF kept])
    have 2: "u \<notin> snd ` set ?r"
      using u(2) ms by (metis set_map)
    have 3: "?r ! k \<in> set ?r"
      using k dims(7) by (intro nth_mem) simp
    from is_topkD(5)[OF t 1 2 3] k dims(7)
    have "time_row kept b (source_channel sc c) s ! u \<le> elem ts b c s k" by simp
    moreover have "time_row kept b (source_channel sc c) s ! u
        = kept_score sc kern stride b (source_channel sc c) u s"
      using u(1) by (simp add: kept_dim2[OF kept] kept_elem_score[OF kept u(1)])
    ultimately show "kept_score sc kern stride b (source_channel sc c) u s \<le> elem ts b c s k"
      by simp
  qed
qed

text \<open>
  Claim C10. For \<open>1 \<le> K \<le> T\<close>: \<open>detect_peaks\<close> returns (for a positive kernel, stride 1,
  a tensor without an empty class, time or station axis, and a batch that is not empty
  unless there is one channel only), and whenever it returns, the result holds exactly
  \<open>K\<close> scores and \<open>K\<close> time indices for every batch element, class and station. In each
  group the indices are pairwise distinct and below \<open>T\<close>, the scores are in descending
  order, every returned score is the suppressed score at its index (so 0 at an index
  that did not survive), and no sample that is left out has a suppressed score above a
  returned one. At least \<open>K\<close> minus the number of survivors of the returned entries sit
  at suppressed indices; and when fewer than \<open>K\<close> samples survive, every survivor with
  a positive score is returned.
\<close>

theorem C10_topk_count:
  assumes "topk_contract topk" and "1 \<le> K" and "K \<le> int (dim2 scores)"
  shows "(0 < kern \<and> stride = 1 \<and> dim1 scores \<noteq> 0 \<and> dim3 scores \<noteq> 0 \<and>
          (dim1 scores = 1 \<or> dim0 scores \<noteq> 0) \<longrightarrow>
       (\<exists>topk_scores topk_inds.
          detect_peaks topk scores vmin kern stride K = Inr (topk_scores, topk_inds))) \<and>
     (\<forall>topk_scores topk_inds.
        detect_peaks topk scores vmin kern stride K = Inr (topk_scores, topk_inds) \<longrightarrow>
        dim3 topk_scores = nat K \<and> dim3 topk_inds = nat K \<and>
        (\<forall>b c s.
           length (last_row topk_scores b c s) = nat K \<and>
           length (last_row topk_inds b c s) = nat K \<and>
           distinct (last_row topk_inds b c s) \<and>
           (\<forall>t \<in> set (last_row topk_inds b c s). t < dim2 scores) \<and>
           sorted (rev (last_row topk_scores b c s)) \<and>
           (\<forall>k < nat K. elem topk_scores b c s k
              = kept_score scores kern stride b (source_channel scores c) (elem topk_inds b c s k) s) \<and>
           (\<forall>t < dim2 scores. t \<notin> set (last_row topk_inds b c s) \<longrightarrow>
              (\<forall>k < nat K. kept_score scores kern stride b (source_channel scores c) t s
                   \<le> elem topk_scores b c s k)) \<and>
           (\<forall>k < nat K.
              elem topk_inds b c s k \<notin> set (survivors scores kern stride b (source_channel scores c) s)
              \<longrightarrow> elem topk_scores b c s k = 0) \<and>
           nat K - length (survivors scores kern stride b (source_channel scores c) s)
             \<le> length (filter
                  (\<lambda>t. t \<notin> set (survivors scores kern stride b (source_channel scores c) s))
                  (last_row topk_inds b c s)) \<and>
           (length (survivors scores kern stride b (source_channel scores c) s) < nat K \<longrightarrow>
              (\<forall>t \<in> set (survivors scores kern stride b (source_channel scores c) s).
                  0 < elem scores b (source_channel scores c) t s \<longrightarrow>
                  t \<in> set (last_row topk_inds b c s)))))"
proof -
  have ex: "\<exists>ts ti. detect_peaks topk scores vmin kern stride K = Inr (ts, ti)"
    if a: "0 < kern \<and> stride = 1 \<and> dim1 scores \<noteq> 0 \<and> dim3 scores \<noteq> 0 \<and>
          (dim1 scores = 1 \<or> dim0 scores \<noteq> 0)"
  proof -
    from assms(2,3) have nt: "dim2 scores \<noteq> 0" by auto
    from a nt obtain kept where k: "suppress scores kern stride = Inr kept"
      using suppress_stride1[of kern scores] by auto
    show ?thesis
      unfolding detect_peaks_unfold[OF k] using assms(2,3) a by auto
  qed
  have main: "dim3 ts = nat K \<and> dim3 ti = nat K \<and>
        (\<forall>b c s.
           length (last_row ts b c s) = nat K \<and>
           length (last_row ti b c s) = nat K \<and>
           distinct (last_row ti b c s) \<and>
           (\<forall>t \<in> set (last_row ti b c s). t < dim2 scores) \<and>
           sorted (rev (last_row ts b c s)) \<and>
           (\<forall>k < nat K. elem ts b c s k
              = kept_score scores kern stride b (source_channel scores c) (elem ti b c s k) s) \<and>
           (\<forall>t < dim2 scores. t \<notin> set (last_row ti b c s) \<longrightarrow>
              (\<forall>k < nat K. kept_score scores kern stride b (source_channel scores c) t s
                   \<le> elem ts b c s k)) \<and>
           (\<forall>k < nat K.
              elem ti b c s k \<notin> set (survivors scores kern stride b (source_channel scores c) s)
              \<longrightarrow> elem ts b c s k = 0) \<and>
           nat K - length (survivors scores kern stride b (source_channel scores c) s)
             \<le> length (filter
                  (\<lambda>t. t \<notin> set (survivors scores kern stride b (source_channel scores c) s))
                  (last_row ti b c s)) \<and>
           (length (survivors scores kern stride b (source_channel scores c) s) < nat K \<longrightarrow>
              (\<forall>t \<in> set (survivors scores kern stride b (source_channel scores c) s).
                  0 < elem scores b (source_channel scores c) t s \<longrightarrow>
                  t \<in> set (last_row ti b c s))))"
    if d: "detect_peaks topk scores vmin kern stride K = Inr (ts, ti)" for ts ti
  proof -
    note dims = detect_peaks_dims[OF d]
    from dims(8) assms(2) have K: "dim3 ts = nat K" by (simp split: if_splits)
    have rowfacts: "length (last_row ts b c s) = nat K \<and>
           length (last_row ti b c s) = nat K \<and>
           distinct (last_row ti b c s) \<and>
           (\<forall>t \<in> set (last_row ti b c s). t < dim2 scores) \<and>
           sorted (rev (last_row ts b c s)) \<and>
           (\<forall>k < nat K. elem ts b c s k
              = kept_score scores kern stride b (source_channel scores c) (elem ti b c s k) s) \<and>
           (\<forall>t < dim2 scores. t \<notin> set (last_row ti b c s) \<longrightarrow>
              (\<forall>k < nat K. kept_score scores kern stride b (source_channel scores c) t s
                   \<le> elem ts b c s k)) \<and>
           (\<forall>k < nat K.
              elem ti b c s k \<notin> set (survivors scores kern stride b (source_channel scores c) s)
              \<longrightarrow> elem ts b c s k = 0) \<and>
           nat K - length (survivors scores kern stride b (source_channel scores c) s)
             \<le> length (filter
                  (\<lambda>t. t \<notin> set (survivors scores kern stride b (source_channel scores c) s))
                  (last_row ti b c s)) \<and>
           (length (survivors scores kern stride b (source_channel scores c) s) < nat K \<longrightarrow>
              (\<forall>t \<in> set (survivors scores kern stride b (source_channel scores c) s).
                  0 < elem scores b (source_channel scores c) t s \<longrightarrow>
                  t \<in> set (last_row ti b c s)))" for b c s
    proof -
      let ?S = "survivors scores kern stride b (source_channel scores c) s"
      let ?c = "source_channel scores c"
      note g = peak_group[OF assms(1) d, of b c s, unfolded K]
      have z: "\<forall>k < nat K. elem ti b c s k \<notin> set ?S \<longrightarrow> elem ts b c s k = 0"
        using g(6) by (simp add: kept_score_def)
      have "length (last_row ti b c s) =
          length (filter (\<lambda>t. t \<in> set ?S) (last_row ti b c s)) +
          length (filter (\<lambda>t. t \<notin> set ?S) (last_row ti b c s))"
        by (simp add: sum_length_filter_compl)
      moreover have "length (filter (\<lambda>t. t \<in> set ?S) (last_row ti b c s)) \<le> length ?S"
        by (rule length_filter_subset[OF g(3) distinct_survivors])
      ultimately have n: "nat K - length ?S \<le> length (filter (\<lambda>t. t \<notin> set ?S) (last_row ti b c s))"
        using g(2) by linarith
      have a: "\<forall>t \<in> set ?S. 0 < elem scores b ?c t s \<longrightarrow> t \<in> set (last_row ti b c s)"
        if few: "length ?S < nat K"
      proof (intro ballI impI, rule ccontr)
        fix t assume t: "t \<in> set ?S" "0 < elem scores b ?c t s" "t \<notin> set (last_row ti b c s)"
        from few n have "filter (\<lambda>t. t \<notin> set ?S) (last_row ti b c s) \<noteq> []"
          by (metis length_0_conv not_less zero_less_diff)
        then obtain u where u: "u \<in> set (last_row ti b c s)" "u \<notin> set ?S"
          by (metis filter_False)
        from u(1) g(2) K obtain k where k: "k < nat K" "elem ti b c s k = u"
          by (metis in_set_conv_nth nth_last_row detect_peaks_dims(7)[OF d])
        from z k u(2) have 0: "elem ts b c s k = 0" by simp
        from t(1) have tT: "t < dim2 scores" by (simp add: in_survivors)
        from g(7) tT t(3) k(1) have "kept_score scores kern stride b ?c t s \<le> elem ts b c s k"
          by simp
        with t(1,2) 0 show False by (simp add: kept_score_def)
      qed
      from g(1-7) z n a show ?thesis by blast
    qed
    have K2: "dim3 ti = nat K" using K dims(7) by simp
    show ?thesis
      by (rule conjI[OF K conjI[OF K2]]) (intro allI, rule rowfacts)
  qed
  from ex main show ?thesis by blast
qed

text \<open>
  One survivor and \<open>K = 2\<close>: the peak is returned first, and the second entry is a
  suppressed sample with score 0.
\<close>

theorem C10_topk_count_witness:
  "topk_contract topk_first \<and> (1::int) \<le> 2 \<and> 2 \<le> int (dim2 lone_peak_scores) \<and>
   survivors lone_peak_scores 3 1 0 (source_channel lone_peak_scores 0) 0 = [1] \<and>
   peak_set (detect_peaks topk_first lone_peak_scores 0.3 3 1 2) 0 0 0 = Inr [(1, 0.9), (0, 0)] \<and>
   (\<exists>ts ti. detect_peaks topk_first lone_peak_scores 0.3 3 1 2 = Inr (ts, ti) \<and>
      dim3 ts = 2 \<and> dim3 ti = 2 \<and> distinct (last_row ti 0 0 0) \<and>
      sorted (rev (last_row ts 0 0 0)) \<and>
      1 \<le> length (filter (\<lambda>t. t \<notin> set [1]) (last_row ti 0 0 0)) \<and>
      1 \<in> set (last_row ti 0 0 0))"
proof -
  have k: "(1::int) \<le> 2" "2 \<le> int (dim2 lone_peak_scores)"
    by (simp_all add: lone_peak_scores_def)
  have s: "survivors lone_peak_scores 3 1 0 (source_channel lone_peak_scores 0) 0 = [1]"
    by code_simp
  have p: "peak_set (detect_peaks topk_first lone_peak_scores 0.3 3 1 2) 0 0 0 = Inr [(1, 0.9), (0, 0)]"
    by code_simp
  have v: "0 < elem lone_peak_scores 0 (source_channel lone_peak_scores 0) 1 0"
    by code_simp
  note t = C10_topk_count[OF topk_first_contract k, of 3 1 "0.3"]
  have "0 < (3::int) \<and> (1::int) = 1 \<and> dim1 lone_peak_scores \<noteq> 0 \<and> dim3 lone_peak_scores \<noteq> 0 \<and>
      (dim1 lone_peak_scores = 1 \<or> dim0 lone_peak_scores \<noteq> 0)"
    by (simp add: lone_peak_scores_def)
  from t[THEN conjunct1, rule_format, OF this]
  obtain ts ti where r: "detect_peaks topk_first lone_peak_scores 0.3 3 1 2 = Inr (ts, ti)"
    by blast
  note u = t[THEN conjunct2, rule_format, OF r]
  note w = u[THEN conjunct2, THEN conjunct2, rule_format, of 0 0 0, unfolded s]
  have d: "dim3 ts = 2" "dim3 ti = 2"
    using u[THEN conjunct1] u[THEN conjunct2, THEN conjunct1] by simp_all
  have 1: "distinct (last_row ti 0 0 0)"
    by (rule w[THEN conjunct2, THEN conjunct2, THEN conjunct1])
  have 2: "sorted (rev (last_row ts 0 0 0))"
    by (rule w[THEN conjunct2, THEN conjunct2, THEN conjunct2, THEN conjunct2, THEN conjunct1])
  note w8 = w[THEN conjunct2, THEN conjunct2, THEN conjunct2, THEN conjunct2, THEN conjunct2,
      THEN conjunct2, THEN conjunct2, THEN conjunct2]
  have 3: "1 \<le> length (filter (\<lambda>t. t \<notin> set [1]) (last_row ti 0 0 0))"
    using w8[THEN conjunct1] by simp
  have 4: "1 \<in> set (last_row ti 0 0 0)"
    using w8[THEN conjunct2] v by simp
  show ?thesis
    by (intro conjI topk_first_contract k s p exI[of _ ts] exI[of _ ti] r d 1 2 3 4)
qed

subsection \<open>The structure of the result of extract_picks\<close>

lemma bind_Inr: "bind m f = Inr y \<longleftrightarrow> (\<exists>x. m = Inr x \<and> f x = Inr y)"
  by (cases m) (simp_all add: bind_def)

lemma bind_Inr_simp [simp]: "bind (Inr x) f = f x"
  by (simp add: bind_def)

lemma bind_Inl_simp [simp]: "bind (Inl e) f = Inl e"
  by (simp add: bind_def)

lemma collect_Inr:
  "collect rs = Inr ys \<longleftrightarrow> (\<forall>r\<in>set rs. \<exists>xs. r = Inr xs) \<and> ys = concat (map projr rs)"
proof (induction rs arbitrary: ys)
  case Nil
  then show ?case by auto
next
  case (Cons r rs)
  show ?case
  proof (cases r)
    case (Inl e)
    then show ?thesis by auto
  next
    case (Inr xs)
    show ?thesis
    proof (cases "collect rs")
      case (Inl e)
      with Cons.IH[of "concat (map projr rs)"] Inr show ?thesis by auto
    next
      case r2: (Inr zs)
      with Cons.IH[of zs] Inr show ?thesis by auto
    qed
  qed
qed

lemma sequence_Inr:
  "sequence rs = Inr ys \<longleftrightarrow> (\<forall>r\<in>set rs. \<exists>x. r = Inr x) \<and> ys = map projr rs"
proof (induction rs arbitrary: ys)
  case Nil
  then show ?case by auto
next
  case (Cons r rs)
  show ?case
  proof (cases r)
    case (Inl e)
    then show ?thesis by auto
  next
    case (Inr xs)
    show ?thesis
    proof (cases "sequence rs")
      case (Inl e)
      with Cons.IH[of "map projr rs"] Inr show ?thesis by auto
    next
      case r2: (Inr zs)
      with Cons.IH[of zs] Inr show ?thesis by auto
    qed
  qed
qed

lemma collect_map_Inr:
  assumes "collect (map f xs) = Inr ys"
  shows "\<forall>x\<in>set xs. f x = Inr (projr (f x))"
    and "ys = concat (map (\<lambda>x. projr (f x)) xs)"
  using assms unfolding collect_Inr by (auto simp: comp_def)

lemma sequence_map_Inr:
  assumes "sequence (map f xs) = Inr ys"
  shows "\<forall>x\<in>set xs. f x = Inr (projr (f x))"
    and "ys = map (\<lambda>x. projr (f x)) xs"
  using assms unfolding sequence_Inr by (auto simp: comp_def)

lemma concat_map_filter:
  "\<forall>x\<in>set l. h x = (if P x then [m x] else []) \<Longrightarrow> concat (map h l) = map m (filter P l)"
  by (induction l) auto

lemma make_pick_Inr:
  assumes "make_pick a bti dt_i begin_i st wai i j k srt ii = Inr p"
  shows "\<exists>offset t. nth_err bti i = Inr offset \<and>
      datetime_add_seconds begin_i (float_of_int (fst (srt ! ii)) * dt_i) = Inr t \<and>
      nth_err (arg_phases a) j = Inr (phase_type p) \<and>
      station_id p = st \<and> phase_index p = fst (srt ! ii) + offset \<and>
      phase_time p = isoformat_ms t \<and> phase_score p = fmt_3f (snd (srt ! ii)) \<and>
      (case arg_polarity_score a of
         None \<Rightarrow> phase_polarity p = None
       | Some ps \<Rightarrow> \<exists>v. polarity ps i (fst (srt ! ii)) k = Inr v \<and> phase_polarity p = Some (fmt_3f v)) \<and>
      (case arg_waveform a of
         None \<Rightarrow> phase_amplitude p = None
       | Some w \<Rightarrow> \<exists>v. amplitude w i k (amp_window srt ii wai) = Inr v \<and>
                      phase_amplitude p = Some (fmt_3e v))"
  using assms unfolding make_pick_def Let_def bind_Inr
  by (auto split: option.splits simp: bind_Inr)

lemma entry_picks_Inr:
  assumes "entry_picks a bti dt_i begin_i st wai i j k srt ii = Inr es"
  shows "es = (if arg_vmin a < snd (srt ! ii)
               then [projr (make_pick a bti dt_i begin_i st wai i j k srt ii)] else [])"
    and "arg_vmin a < snd (srt ! ii) \<Longrightarrow>
           make_pick a bti dt_i begin_i st wai i j k srt ii
             = Inr (projr (make_pick a bti dt_i begin_i st wai i j k srt ii))"
  using assms unfolding entry_picks_def by (auto simp: bind_Inr split: if_splits)

lemma group_picks_Inr:
  assumes "group_picks ti ts a bci bti dt_i begin_i wai i j k = Inr g"
  shows "\<exists>st srt. station_of a bci i k = Inr st \<and> sorted_group ti ts i j k = Inr srt \<and>
      g = map (\<lambda>ii. projr (make_pick a bti dt_i begin_i st wai i j k srt ii))
            (filter (\<lambda>ii. arg_vmin a < snd (srt ! ii)) [0..<length srt]) \<and>
      (\<forall>ii<length srt. arg_vmin a < snd (srt ! ii) \<longrightarrow>
          make_pick a bti dt_i begin_i st wai i j k srt ii
             = Inr (projr (make_pick a bti dt_i begin_i st wai i j k srt ii)))"
proof -
  from assms obtain st srt where st: "station_of a bci i k = Inr st"
    and srt: "sorted_group ti ts i j k = Inr srt"
    and c: "collect (map (entry_picks a bti dt_i begin_i st wai i j k srt) [0..<length srt]) = Inr g"
    unfolding group_picks_def bind_Inr by blast
  note m = collect_map_Inr[OF c]
  have e: "projr (entry_picks a bti dt_i begin_i st wai i j k srt ii)
      = (if arg_vmin a < snd (srt ! ii)
         then [projr (make_pick a bti dt_i begin_i st wai i j k srt ii)] else [])"
    and mk: "arg_vmin a < snd (srt ! ii) \<Longrightarrow>
           make_pick a bti dt_i begin_i st wai i j k srt ii
             = Inr (projr (make_pick a bti dt_i begin_i st wai i j k srt ii))"
    if "ii < length srt" for ii
  proof -
    from m(1) that
    have r: "entry_picks a bti dt_i begin_i st wai i j k srt ii
        = Inr (projr (entry_picks a bti dt_i begin_i st wai i j k srt ii))" by simp
    show "projr (entry_picks a bti dt_i begin_i st wai i j k srt ii)
      = (if arg_vmin a < snd (srt ! ii)
         then [projr (make_pick a bti dt_i begin_i st wai i j k srt ii)] else [])"
      by (rule entry_picks_Inr(1)[OF r])
    show "make_pick a bti dt_i begin_i st wai i j k srt ii
             = Inr (projr (make_pick a bti dt_i begin_i st wai i j k srt ii))"
      if "arg_vmin a < snd (srt ! ii)"
      by (rule entry_picks_Inr(2)[OF r that])
  qed
  have "g = map (\<lambda>ii. projr (make_pick a bti dt_i begin_i st wai i j k srt ii))
            (filter (\<lambda>ii. arg_vmin a < snd (srt ! ii)) [0..<length srt])"
    unfolding m(2) by (rule concat_map_filter) (simp add: e)
  with st srt mk show ?thesis by blast
qed

lemma class_picks_Inr:
  assumes "class_picks ti ts a bci bti dt_i begin_i i j = Inr cs"
  shows "\<exists>wai. window_amp_of a dt_i j = Inr wai \<and>
      cs = concat (map (\<lambda>k. projr (group_picks ti ts a bci bti dt_i begin_i wai i j k)) [0..<dim2 ts]) \<and>
      (\<forall>k<dim2 ts. group_picks ti ts a bci bti dt_i begin_i wai i j k
          = Inr (projr (group_picks ti ts a bci bti dt_i begin_i wai i j k)))"
proof -
  from assms obtain wai where w: "window_amp_of a dt_i j = Inr wai"
    and c: "collect (map (group_picks ti ts a bci bti dt_i begin_i wai i j) [0..<dim2 ts]) = Inr cs"
    unfolding class_picks_def bind_Inr by blast
  from collect_map_Inr[OF c] w show ?thesis by auto
qed

lemma picks_per_file_Inr:
  assumes "picks_per_file ti ts a dt bci bti i = Inr ps"
  shows "\<exists>begin_i. begin_of (arg_begin_time a) i = Inr begin_i \<and>
      ps = concat (map (\<lambda>j. projr (class_picks ti ts a bci bti (dt ! i) begin_i i j)) [0..<dim1 ts]) \<and>
      (\<forall>j<dim1 ts. class_picks ti ts a bci bti (dt ! i) begin_i i j
          = Inr (projr (class_picks ti ts a bci bti (dt ! i) begin_i i j)))"
proof -
  from assms obtain begin_i where b: "begin_of (arg_begin_time a) i = Inr begin_i"
    and c: "collect (map (class_picks ti ts a bci bti (dt ! i) begin_i i) [0..<dim1 ts]) = Inr ps"
    unfolding picks_per_file_def bind_Inr by blast
  from collect_map_Inr[OF c] b show ?thesis by auto
qed

lemma extract_picks_Inr:
  assumes "extract_picks ti ts a = Inr picks"
  shows "\<exists>dt. resolve_dt (arg_dt a) (dim0 ts) = Inr dt \<and> length picks = dim0 ts \<and>
      (\<forall>i<dim0 ts. picks_per_file ti ts a dt
           (resolve_offsets (arg_begin_channel_index a) (dim0 ts))
           (resolve_offsets (arg_begin_time_index a) (dim0 ts)) i = Inr (picks ! i))"
proof -
  from assms obtain dt where d: "resolve_dt (arg_dt a) (dim0 ts) = Inr dt"
    and s: "sequence (map (picks_per_file ti ts a dt
           (resolve_offsets (arg_begin_channel_index a) (dim0 ts))
           (resolve_offsets (arg_begin_time_index a) (dim0 ts))) [0..<dim0 ts]) = Inr picks"
    unfolding extract_picks_def Let_def bind_Inr by blast
  from sequence_map_Inr[OF s] d show ?thesis by auto
qed

lemma resolve_dt_Inr:
  assumes "resolve_dt d batch = Inr dt" "i < batch"
  shows "dt ! i = (case d of Scalar x \<Rightarrow> x | PerBatch xs \<Rightarrow> xs ! i)"
  using assms unfolding resolve_dt_def by (auto split: dt_arg.splits if_splits)

lemma nth_err_Inr: "nth_err xs n = Inr x \<longleftrightarrow> n < length xs \<and> x = xs ! n"
  by (auto simp: nth_err_def)

lemma sorted_group_Inr:
  assumes "sorted_group ti ts i j k = Inr srt"
  shows "srt = sort_key fst (zip (last_row ti i j k) (last_row ts i j k))"
    and "mset srt = mset (zip (last_row ti i j k) (last_row ts i j k))"
    and "sorted (map fst srt)" and "length srt = dim3 ti"
    and "dim3 ti \<le> dim3 ts"
proof -
  from assms show s: "srt = sort_key fst (zip (last_row ti i j k) (last_row ts i j k))"
    and d: "dim3 ti \<le> dim3 ts"
    unfolding sorted_group_def by (auto split: if_splits)
  show "mset srt = mset (zip (last_row ti i j k) (last_row ts i j k))"
    unfolding s by simp
  show "sorted (map fst srt)" unfolding s by simp
  show "length srt = dim3 ti" unfolding s using d by simp
qed

text \<open>
  The picks of batch element \<open>i\<close>, group by group: \<open>g j k\<close> are the picks of class \<open>j\<close> and
  station \<open>k\<close>, made from the entries of the sorted group \<open>srt j k\<close> whose score exceeds
  \<open>vmin\<close>.
\<close>

lemma extract_picks_groups:
  assumes e: "extract_picks ti ts a = Inr picks" and i: "i < dim0 ts"
  shows "\<exists>dt begin_i wai st srt mk.
      resolve_dt (arg_dt a) (dim0 ts) = Inr dt \<and>
      begin_of (arg_begin_time a) i = Inr begin_i \<and>
      picks ! i = concat (map (\<lambda>j. concat (map (\<lambda>k.
          map (mk j k) (filter (\<lambda>ii. arg_vmin a < snd (srt j k ! ii)) [0..<length (srt j k)]))
            [0..<dim2 ts])) [0..<dim1 ts]) \<and>
      (\<forall>j<dim1 ts. window_amp_of a (dt ! i) j = Inr (wai j) \<and>
        (\<forall>k<dim2 ts.
           station_of a (resolve_offsets (arg_begin_channel_index a) (dim0 ts)) i k = Inr (st k) \<and>
           sorted_group ti ts i j k = Inr (srt j k) \<and>
           (\<forall>ii<length (srt j k). arg_vmin a < snd (srt j k ! ii) \<longrightarrow>
              make_pick a (resolve_offsets (arg_begin_time_index a) (dim0 ts)) (dt ! i) begin_i
                 (st k) (wai j) i j k (srt j k) ii = Inr (mk j k ii))))"
proof -
  define bci where "bci = resolve_offsets (arg_begin_channel_index a) (dim0 ts)"
  define bti where "bti = resolve_offsets (arg_begin_time_index a) (dim0 ts)"
  from extract_picks_Inr[OF e] i obtain dt where dt: "resolve_dt (arg_dt a) (dim0 ts) = Inr dt"
    and p: "picks_per_file ti ts a dt bci bti i = Inr (picks ! i)"
    unfolding bci_def bti_def by blast
  from picks_per_file_Inr[OF p] obtain begin_i
    where b: "begin_of (arg_begin_time a) i = Inr begin_i"
    and pc: "picks ! i = concat (map (\<lambda>j. projr (class_picks ti ts a bci bti (dt ! i) begin_i i j)) [0..<dim1 ts])"
    and c: "\<And>j. j < dim1 ts \<Longrightarrow> class_picks ti ts a bci bti (dt ! i) begin_i i j
          = Inr (projr (class_picks ti ts a bci bti (dt ! i) begin_i i j))"
    by blast
  define wai where "wai j = projr (window_amp_of a (dt ! i) j)" for j
  define st where "st k = projr (station_of a bci i k)" for k
  define srt where "srt j k = projr (sorted_group ti ts i j k)" for j k
  define mk where "mk j k ii = projr (make_pick a bti (dt ! i) begin_i (st k) (wai j) i j k (srt j k) ii)"
    for j k ii
  have cls: "window_amp_of a (dt ! i) j = Inr (wai j) \<and>
      projr (class_picks ti ts a bci bti (dt ! i) begin_i i j) =
        concat (map (\<lambda>k. projr (group_picks ti ts a bci bti (dt ! i) begin_i (wai j) i j k)) [0..<dim2 ts]) \<and>
      (\<forall>k<dim2 ts. group_picks ti ts a bci bti (dt ! i) begin_i (wai j) i j k
          = Inr (projr (group_picks ti ts a bci bti (dt ! i) begin_i (wai j) i j k)))"
    if "j < dim1 ts" for j
    using class_picks_Inr[OF c[OF that]] unfolding wai_def by auto
  have grp: "station_of a bci i k = Inr (st k) \<and> sorted_group ti ts i j k = Inr (srt j k) \<and>
      projr (group_picks ti ts a bci bti (dt ! i) begin_i (wai j) i j k) =
        map (mk j k) (filter (\<lambda>ii. arg_vmin a < snd (srt j k ! ii)) [0..<length (srt j k)]) \<and>
      (\<forall>ii<length (srt j k). arg_vmin a < snd (srt j k ! ii) \<longrightarrow>
          make_pick a bti (dt ! i) begin_i (st k) (wai j) i j k (srt j k) ii = Inr (mk j k ii))"
    if "j < dim1 ts" "k < dim2 ts" for j k
  proof -
    from cls[OF that(1)] that(2)
    have "group_picks ti ts a bci bti (dt ! i) begin_i (wai j) i j k
          = Inr (projr (group_picks ti ts a bci bti (dt ! i) begin_i (wai j) i j k))" by blast
    from group_picks_Inr[OF this] show ?thesis
      unfolding st_def srt_def mk_def by auto
  qed
  have inner: "projr (class_picks ti ts a bci bti (dt ! i) begin_i i j) =
      concat (map (\<lambda>k. map (mk j k)
          (filter (\<lambda>ii. arg_vmin a < snd (srt j k ! ii)) [0..<length (srt j k)])) [0..<dim2 ts])"
    if "j < dim1 ts" for j
  proof -
    have m: "map (\<lambda>k. projr (group_picks ti ts a bci bti (dt ! i) begin_i (wai j) i j k)) [0..<dim2 ts]
        = map (\<lambda>k. map (mk j k)
          (filter (\<lambda>ii. arg_vmin a < snd (srt j k ! ii)) [0..<length (srt j k)])) [0..<dim2 ts]"
      by (rule map_cong[OF refl]) (simp add: grp[OF that])
    from cls[OF that]
    have c2: "projr (class_picks ti ts a bci bti (dt ! i) begin_i i j) =
        concat (map (\<lambda>k. projr (group_picks ti ts a bci bti (dt ! i) begin_i (wai j) i j k)) [0..<dim2 ts])"
      by blast
    show ?thesis unfolding c2 m by (rule refl)
  qed
  have m2: "map (\<lambda>j. projr (class_picks ti ts a bci bti (dt ! i) begin_i i j)) [0..<dim1 ts]
      = map (\<lambda>j. concat (map (\<lambda>k. map (mk j k)
          (filter (\<lambda>ii. arg_vmin a < snd (srt j k ! ii)) [0..<length (srt j k)])) [0..<dim2 ts]))
          [0..<dim1 ts]"
    by (rule map_cong[OF refl]) (simp add: inner)
  have "picks ! i = concat (map (\<lambda>j. concat (map (\<lambda>k.
          map (mk j k) (filter (\<lambda>ii. arg_vmin a < snd (srt j k ! ii)) [0..<length (srt j k)]))
            [0..<dim2 ts])) [0..<dim1 ts])"
    unfolding pc m2 by (rule refl)
  with dt b cls grp show ?thesis
    unfolding bci_def[symmetric] bti_def[symmetric]
    by (intro exI[of _ dt] exI[of _ begin_i] exI[of _ wai] exI[of _ st] exI[of _ srt] exI[of _ mk])
      simp
qed

subsection \<open>The picks of a batch element, entry by entry\<close>

lemma map_filter_nth:
  "map (\<lambda>ii. f (l ! ii)) (filter (\<lambda>ii. P (l ! ii)) [0..<length l]) = map f (filter P l)"
proof -
  have "map f (filter P l) = map f (filter P (map ((!) l) [0..<length l]))"
    by (simp add: map_nth)
  also have "\<dots> = map (\<lambda>ii. f (l ! ii)) (filter (\<lambda>ii. P (l ! ii)) [0..<length l])"
    by (simp add: filter_map comp_def)
  finally show ?thesis by simp
qed

lemma sorted_map_filter_add:
  fixes l :: "(int \<times> 'b) list"
  shows "sorted (map fst l) \<Longrightarrow> sorted (map (\<lambda>e. fst e + c) (filter P l))"
  by (induction l) auto

text \<open>
  The fields of the picks of one group, read off the entries of the sorted group whose
  score exceeds \<open>vmin\<close>.
\<close>

lemma group_fields:
  assumes mk: "\<forall>ii<length srt. arg_vmin a < snd (srt ! ii) \<longrightarrow>
              make_pick a bti dt_i begin_i st wai i j k srt ii = Inr (mk ii)"
  defines "g \<equiv> map mk (filter (\<lambda>ii. arg_vmin a < snd (srt ! ii)) [0..<length srt])"
  shows "map phase_index g = map (\<lambda>e. fst e + bti ! i) (filter (\<lambda>e. arg_vmin a < snd e) srt)"
    and "map phase_score g = map (\<lambda>e. fmt_3f (snd e)) (filter (\<lambda>e. arg_vmin a < snd e) srt)"
    and "map phase_time g = map (\<lambda>e. isoformat_ms (projr (datetime_add_seconds begin_i (float_of_int (fst e) * dt_i))))
            (filter (\<lambda>e. arg_vmin a < snd e) srt)"
    and "\<forall>p\<in>set g. station_id p = st \<and> nth_err (arg_phases a) j = Inr (phase_type p)"
    and "\<forall>e\<in>set srt. arg_vmin a < snd e \<longrightarrow>
           (\<exists>t. datetime_add_seconds begin_i (float_of_int (fst e) * dt_i) = Inr t) \<and> i < length bti"
proof -
  have f: "phase_index (mk ii) = fst (srt ! ii) + bti ! i \<and>
      phase_score (mk ii) = fmt_3f (snd (srt ! ii)) \<and>
      phase_time (mk ii) = isoformat_ms (projr (datetime_add_seconds begin_i (float_of_int (fst (srt ! ii)) * dt_i))) \<and>
      station_id (mk ii) = st \<and> nth_err (arg_phases a) j = Inr (phase_type (mk ii)) \<and>
      (\<exists>t. datetime_add_seconds begin_i (float_of_int (fst (srt ! ii)) * dt_i) = Inr t) \<and> i < length bti"
    if "ii < length srt" "arg_vmin a < snd (srt ! ii)" for ii
    using make_pick_Inr[OF mk[rule_format, OF that]] by (auto simp: nth_err_Inr)
  have "map phase_index g = map (\<lambda>ii. fst (srt ! ii) + bti ! i)
      (filter (\<lambda>ii. arg_vmin a < snd (srt ! ii)) [0..<length srt])"
    unfolding g_def using f by simp
  then show "map phase_index g = map (\<lambda>e. fst e + bti ! i) (filter (\<lambda>e. arg_vmin a < snd e) srt)"
    using map_filter_nth[of "\<lambda>e. fst e + bti ! i" srt "\<lambda>e. arg_vmin a < snd e"] by simp
  have "map phase_score g = map (\<lambda>ii. fmt_3f (snd (srt ! ii)))
      (filter (\<lambda>ii. arg_vmin a < snd (srt ! ii)) [0..<length srt])"
    unfolding g_def using f by simp
  then show "map phase_score g = map (\<lambda>e. fmt_3f (snd e)) (filter (\<lambda>e. arg_vmin a < snd e) srt)"
    using map_filter_nth[of "\<lambda>e. fmt_3f (snd e)" srt "\<lambda>e. arg_vmin a < snd e"] by simp
  have "map phase_time g = map (\<lambda>ii. isoformat_ms (projr (datetime_add_seconds begin_i (float_of_int (fst (srt ! ii)) * dt_i))))
      (filter (\<lambda>ii. arg_vmin a < snd (srt ! ii)) [0..<length srt])"
    unfolding g_def using f by simp
  then show "map phase_time g = map (\<lambda>e. isoformat_ms (projr (datetime_add_seconds begin_i (float_of_int (fst e) * dt_i))))
            (filter (\<lambda>e. arg_vmin a < snd e) srt)"
    using map_filter_nth[of "\<lambda>e. isoformat_ms (projr (datetime_add_seconds begin_i (float_of_int (fst e) * dt_i)))"
        srt "\<lambda>e. arg_vmin a < snd e"] by simp
  show "\<forall>p\<in>set g. station_id p = st \<and> nth_err (arg_phases a) j = Inr (phase_type p)"
    unfolding g_def using f by auto
  show "\<forall>e\<in>set srt. arg_vmin a < snd e \<longrightarrow>
           (\<exists>t. datetime_add_seconds begin_i (float_of_int (fst e) * dt_i) = Inr t) \<and> i < length bti"
  proof (intro ballI impI)
    fix e assume "e \<in> set srt" "arg_vmin a < snd e"
    then obtain ii where "ii < length srt" "srt ! ii = e" "arg_vmin a < snd (srt ! ii)"
      by (auto simp: in_set_conv_nth)
    from f[OF this(1,3)] this(2)
    show "(\<exists>t. datetime_add_seconds begin_i (float_of_int (fst e) * dt_i) = Inr t) \<and> i < length bti"
      by simp
  qed
qed

lemma concat2_cong:
  assumes "\<And>j k. j < n \<Longrightarrow> k < m \<Longrightarrow> F j k = G j k"
  shows "concat (map (\<lambda>j. concat (map (F j) [0..<m])) [0..<n])
       = concat (map (\<lambda>j. concat (map (G j) [0..<m])) [0..<n])"
proof -
  have h: "map (F j) [0..<m] = map (G j) [0..<m]" if "j < n" for j
    by (rule map_cong[OF refl]) (simp add: assms that)
  have "map (\<lambda>j. concat (map (F j) [0..<m])) [0..<n] = map (\<lambda>j. concat (map (G j) [0..<m])) [0..<n]"
    by (rule map_cong[OF refl]) (simp add: h)
  then show ?thesis by (rule arg_cong)
qed

lemma map_concat2:
  "map f (concat (map (\<lambda>j. concat (map (F j) ks)) js))
     = concat (map (\<lambda>j. concat (map (\<lambda>k. map f (F j k)) ks)) js)"
  by (simp add: map_concat comp_def)

lemma sorted_group_entries:
  "sorted_group ti ts i j k = Inr srt \<Longrightarrow> srt = group_entries ti ts i j k"
  by (simp add: sorted_group_Inr(1) group_entries_def)

lemma length_filter_group_entries:
  "length (filter P (group_entries ti ts i j k))
     = length (filter P (zip (last_row ti i j k) (last_row ts i j k)))"
  unfolding group_entries_def by (simp add: filter_sort)

text \<open>
  The picks of batch element \<open>i\<close> in terms of the entries of the groups: what the claims
  on the fields of the picks and on their order rest on.
\<close>

lemma picks_by_entries:
  assumes e: "extract_picks ti ts a = Inr picks" and i: "i < dim0 ts"
  shows "\<exists>dt begin_i g.
      resolve_dt (arg_dt a) (dim0 ts) = Inr dt \<and>
      begin_of (arg_begin_time a) i = Inr begin_i \<and>
      picks ! i = concat (map (\<lambda>j. concat (map (g j) [0..<dim2 ts])) [0..<dim1 ts]) \<and>
      (\<forall>j<dim1 ts. \<forall>k<dim2 ts.
         map phase_index (g j k) =
           map (\<lambda>e. fst e + resolve_offsets (arg_begin_time_index a) (dim0 ts) ! i)
             (filter (\<lambda>e. arg_vmin a < snd e) (group_entries ti ts i j k)) \<and>
         map phase_score (g j k) =
           map (\<lambda>e. fmt_3f (snd e)) (filter (\<lambda>e. arg_vmin a < snd e) (group_entries ti ts i j k)) \<and>
         map phase_time (g j k) =
           map (\<lambda>e. isoformat_ms (projr (datetime_add_seconds begin_i (float_of_int (fst e) * dt ! i))))
             (filter (\<lambda>e. arg_vmin a < snd e) (group_entries ti ts i j k)) \<and>
         (\<forall>p\<in>set (g j k).
             station_of a (resolve_offsets (arg_begin_channel_index a) (dim0 ts)) i k
               = Inr (station_id p) \<and>
             nth_err (arg_phases a) j = Inr (phase_type p)) \<and>
         (\<forall>e\<in>set (group_entries ti ts i j k). arg_vmin a < snd e \<longrightarrow>
             (\<exists>t. datetime_add_seconds begin_i (float_of_int (fst e) * dt ! i) = Inr t) \<and>
             i < length (resolve_offsets (arg_begin_time_index a) (dim0 ts))))"
proof -
  define bti where "bti = resolve_offsets (arg_begin_time_index a) (dim0 ts)"
  define bci where "bci = resolve_offsets (arg_begin_channel_index a) (dim0 ts)"
  from extract_picks_groups[OF e i] obtain dt begin_i wai st srt mk where
    dt: "resolve_dt (arg_dt a) (dim0 ts) = Inr dt"
    and b: "begin_of (arg_begin_time a) i = Inr begin_i"
    and p: "picks ! i = concat (map (\<lambda>j. concat (map (\<lambda>k.
          map (mk j k) (filter (\<lambda>ii. arg_vmin a < snd (srt j k ! ii)) [0..<length (srt j k)]))
            [0..<dim2 ts])) [0..<dim1 ts])"
    and r: "\<And>j k. j < dim1 ts \<Longrightarrow> k < dim2 ts \<Longrightarrow>
           station_of a bci i k = Inr (st k) \<and>
           sorted_group ti ts i j k = Inr (srt j k) \<and>
           (\<forall>ii<length (srt j k). arg_vmin a < snd (srt j k ! ii) \<longrightarrow>
              make_pick a bti (dt ! i) begin_i (st k) (wai j) i j k (srt j k) ii = Inr (mk j k ii))"
    unfolding bti_def bci_def by blast
  define g where "g j k = map (mk j k)
      (filter (\<lambda>ii. arg_vmin a < snd (srt j k ! ii)) [0..<length (srt j k)])" for j k
  have "map phase_index (g j k) =
           map (\<lambda>e. fst e + bti ! i) (filter (\<lambda>e. arg_vmin a < snd e) (group_entries ti ts i j k)) \<and>
         map phase_score (g j k) =
           map (\<lambda>e. fmt_3f (snd e)) (filter (\<lambda>e. arg_vmin a < snd e) (group_entries ti ts i j k)) \<and>
         map phase_time (g j k) =
           map (\<lambda>e. isoformat_ms (projr (datetime_add_seconds begin_i (float_of_int (fst e) * dt ! i))))
             (filter (\<lambda>e. arg_vmin a < snd e) (group_entries ti ts i j k)) \<and>
         (\<forall>p\<in>set (g j k). station_of a bci i k = Inr (station_id p) \<and>
             nth_err (arg_phases a) j = Inr (phase_type p)) \<and>
         (\<forall>e\<in>set (group_entries ti ts i j k). arg_vmin a < snd e \<longrightarrow>
             (\<exists>t. datetime_add_seconds begin_i (float_of_int (fst e) * dt ! i) = Inr t) \<and>
             i < length bti)"
    if jk: "j < dim1 ts" "k < dim2 ts" for j k
  proof -
    from r[OF jk] have s: "srt j k = group_entries ti ts i j k"
      and st: "station_of a bci i k = Inr (st k)"
      and m: "\<forall>ii<length (srt j k). arg_vmin a < snd (srt j k ! ii) \<longrightarrow>
              make_pick a bti (dt ! i) begin_i (st k) (wai j) i j k (srt j k) ii = Inr (mk j k ii)"
      by (simp_all add: sorted_group_entries)
    have gd: "map (mk j k) (filter (\<lambda>ii. arg_vmin a < snd (srt j k ! ii)) [0..<length (srt j k)])
        = g j k"
      by (simp add: g_def)
    note f = group_fields[OF m, unfolded gd]
    note f' = f[unfolded s]
    from f'(4) st have 4: "\<forall>p\<in>set (g j k). station_of a bci i k = Inr (station_id p) \<and>
             nth_err (arg_phases a) j = Inr (phase_type p)"
      by simp
    show ?thesis
      by (intro conjI) (rule f'(1) f'(2) f'(3) 4 f'(5))+
  qed
  moreover have "picks ! i = concat (map (\<lambda>j. concat (map (g j) [0..<dim2 ts])) [0..<dim1 ts])"
    unfolding p g_def by (rule refl)
  ultimately show ?thesis
    using dt b unfolding bti_def bci_def
    by (intro exI[of _ dt] exI[of _ begin_i] exI[of _ g]) simp
qed

text \<open>
  Claim C4. The picks of a batch element come from exactly the entries of its groups
  whose score is strictly greater than \<open>vmin\<close>: their formatted scores are the scores
  of these entries, class by class, station by station and in the sorted order of each
  group, and there are as many picks as there are such entries. An entry whose score
  equals \<open>vmin\<close> yields no pick.
\<close>

theorem C4_threshold:
  assumes "extract_picks topk_index topk_score a = Inr picks" and "i < dim0 topk_score"
  shows "map phase_score (picks ! i) =
      concat (map (\<lambda>j. concat (map (\<lambda>k.
          map (\<lambda>e. fmt_3f (snd e))
            (filter (\<lambda>e. arg_vmin a < snd e) (group_entries topk_index topk_score i j k)))
        [0..<dim2 topk_score])) [0..<dim1 topk_score]) \<and>
    length (picks ! i) =
      sum_list (map (\<lambda>j. sum_list (map (\<lambda>k.
          length (filter (\<lambda>e. arg_vmin a < snd e)
            (zip (last_row topk_index i j k) (last_row topk_score i j k))))
        [0..<dim2 topk_score])) [0..<dim1 topk_score])"
proof -
  from picks_by_entries[OF assms] obtain g where
    p: "picks ! i = concat (map (\<lambda>j. concat (map (g j) [0..<dim2 topk_score])) [0..<dim1 topk_score])"
    and s: "\<And>j k. j < dim1 topk_score \<Longrightarrow> k < dim2 topk_score \<Longrightarrow>
      map phase_score (g j k) = map (\<lambda>e. fmt_3f (snd e))
        (filter (\<lambda>e. arg_vmin a < snd e) (group_entries topk_index topk_score i j k))"
    by blast
  have 1: "map phase_score (picks ! i) =
      concat (map (\<lambda>j. concat (map (\<lambda>k.
          map (\<lambda>e. fmt_3f (snd e))
            (filter (\<lambda>e. arg_vmin a < snd e) (group_entries topk_index topk_score i j k)))
        [0..<dim2 topk_score])) [0..<dim1 topk_score])"
    unfolding p map_concat2 by (rule concat2_cong) (rule s)
  have "length (picks ! i) = length (map phase_score (picks ! i))" by simp
  also have "\<dots> = sum_list (map (\<lambda>j. sum_list (map (\<lambda>k.
          length (filter (\<lambda>e. arg_vmin a < snd e)
            (zip (last_row topk_index i j k) (last_row topk_score i j k))))
        [0..<dim2 topk_score])) [0..<dim1 topk_score])"
    unfolding 1 by (simp add: length_concat comp_def length_filter_group_entries)
  finally show ?thesis using 1 by simp
qed

text \<open>
  Three peaks with the scores 0.9, 0.3 and 0.2 and \<open>vmin = 0.3\<close>: the peak of 0.9 is the
  only pick.
\<close>

theorem C4_threshold_witness:
  "\<exists>picks. extract_picks three_peak_index three_peak_score default_args = Inr [picks] \<and>
     0 < dim0 three_peak_score \<and>
     arg_vmin default_args = 0.3 \<and>
     last_row three_peak_score 0 0 0 = [0.9, 0.3, 0.2] \<and>
     map phase_score picks = [''0.900''] \<and> length picks = 1"
proof -
  have "map_sum id (map (map phase_index)) (extract_picks three_peak_index three_peak_score default_args)
      = Inr [[7]]"
    by code_simp
  then obtain picks where e: "extract_picks three_peak_index three_peak_score default_args = Inr [picks]"
    by (cases "extract_picks three_peak_index three_peak_score default_args") auto
  have d: "0 < dim0 three_peak_score" by (simp add: three_peak_score_def)
  have r: "concat (map (\<lambda>j. concat (map (\<lambda>k.
          map (\<lambda>e. fmt_3f (snd e))
            (filter (\<lambda>e. arg_vmin default_args < snd e) (group_entries three_peak_index three_peak_score 0 j k)))
        [0..<dim2 three_peak_score])) [0..<dim1 three_peak_score]) = [''0.900'']"
    by code_simp
  have n: "sum_list (map (\<lambda>j. sum_list (map (\<lambda>k.
          length (filter (\<lambda>e. arg_vmin default_args < snd e)
            (zip (last_row three_peak_index 0 j k) (last_row three_peak_score 0 j k))))
        [0..<dim2 three_peak_score])) [0..<dim1 three_peak_score]) = 1"
    by code_simp
  have v: "arg_vmin default_args = 0.3" by (simp add: default_args_def)
  have l: "last_row three_peak_score 0 0 0 = [0.9, 0.3, 0.2]" by code_simp
  from C4_threshold[OF e d] have c: "map phase_score picks = [''0.900'']" "length picks = 1"
    unfolding r n by simp_all
  show ?thesis
    by (rule exI[of _ picks]) (intro conjI e d v l c)
qed

text \<open>
  Claim C9. The picks of a batch element are the picks of its groups one after the
  other, the classes in order and within a class the stations in order. Within a group
  the picks carry the phase of the class and the name of the station, and their
  \<open>phase_index\<close> values are those of the entries above \<open>vmin\<close> in ascending order of the
  time index, so they do not decrease. The whole list need not be sorted by
  \<open>phase_index\<close>: with a peak at sample 5 on station 0 and one at sample 2 on station 1
  the picks come in the order 5, 2.
\<close>

theorem C9_encounter_order:
  assumes "extract_picks topk_index topk_score a = Inr picks" and "i < dim0 topk_score"
  shows "(\<exists>g. picks ! i = concat (map (\<lambda>j. concat (map (g j) [0..<dim2 topk_score]))
                          [0..<dim1 topk_score]) \<and>
      (\<forall>j<dim1 topk_score. \<forall>k<dim2 topk_score.
         sorted (map phase_index (g j k)) \<and>
         map phase_index (g j k) =
           map (\<lambda>e. fst e + resolve_offsets (arg_begin_time_index a) (dim0 topk_score) ! i)
             (filter (\<lambda>e. arg_vmin a < snd e) (group_entries topk_index topk_score i j k)) \<and>
         sorted (map fst (group_entries topk_index topk_score i j k)) \<and>
         (\<forall>p\<in>set (g j k).
             station_of a (resolve_offsets (arg_begin_channel_index a) (dim0 topk_score)) i k
               = Inr (station_id p) \<and>
             nth_err (arg_phases a) j = Inr (phase_type p)))) \<and>
    map_sum id (map (map phase_index)) (extract_picks two_station_index two_station_score default_args)
      = Inr [[5, 2]]"
proof -
  from picks_by_entries[OF assms] obtain g where
    p: "picks ! i = concat (map (\<lambda>j. concat (map (g j) [0..<dim2 topk_score])) [0..<dim1 topk_score])"
    and f: "\<And>j k. j < dim1 topk_score \<Longrightarrow> k < dim2 topk_score \<Longrightarrow>
      map phase_index (g j k) =
           map (\<lambda>e. fst e + resolve_offsets (arg_begin_time_index a) (dim0 topk_score) ! i)
             (filter (\<lambda>e. arg_vmin a < snd e) (group_entries topk_index topk_score i j k)) \<and>
      (\<forall>p\<in>set (g j k).
             station_of a (resolve_offsets (arg_begin_channel_index a) (dim0 topk_score)) i k
               = Inr (station_id p) \<and>
             nth_err (arg_phases a) j = Inr (phase_type p))"
    by blast
  have s: "sorted (map fst (group_entries topk_index topk_score i j k))" for j k
    by (simp add: group_entries_def)
  have r: "sorted (map phase_index (g j k)) \<and>
         map phase_index (g j k) =
           map (\<lambda>e. fst e + resolve_offsets (arg_begin_time_index a) (dim0 topk_score) ! i)
             (filter (\<lambda>e. arg_vmin a < snd e) (group_entries topk_index topk_score i j k)) \<and>
         sorted (map fst (group_entries topk_index topk_score i j k)) \<and>
         (\<forall>p\<in>set (g j k).
             station_of a (resolve_offsets (arg_begin_channel_index a) (dim0 topk_score)) i k
               = Inr (station_id p) \<and>
             nth_err (arg_phases a) j = Inr (phase_type p))"
    if jk: "j < dim1 topk_score" "k < dim2 topk_score" for j k
  proof -
    note h = f[OF jk]
    have "sorted (map phase_index (g j k))"
      unfolding h[THEN conjunct1] by (rule sorted_map_filter_add[OF s])
    with h s show ?thesis by blast
  qed
  have 1: "\<exists>g. picks ! i = concat (map (\<lambda>j. concat (map (g j) [0..<dim2 topk_score]))
                          [0..<dim1 topk_score]) \<and>
      (\<forall>j<dim1 topk_score. \<forall>k<dim2 topk_score.
         sorted (map phase_index (g j k)) \<and>
         map phase_index (g j k) =
           map (\<lambda>e. fst e + resolve_offsets (arg_begin_time_index a) (dim0 topk_score) ! i)
             (filter (\<lambda>e. arg_vmin a < snd e) (group_entries topk_index topk_score i j k)) \<and>
         sorted (map fst (group_entries topk_index topk_score i j k)) \<and>
         (\<forall>p\<in>set (g j k).
             station_of a (resolve_offsets (arg_begin_channel_index a) (dim0 topk_score)) i k
               = Inr (station_id p) \<and>
             nth_err (arg_phases a) j = Inr (phase_type p)))"
    by (rule exI[of _ g], rule conjI[OF p], intro allI impI) (rule r; assumption)
  have 2: "map_sum id (map (map phase_index))
      (extract_picks two_station_index two_station_score default_args) = Inr [[5, 2]]"
    by code_simp
  from 1 2 show ?thesis by (rule conjI)
qed

text \<open>
  Three peaks of one group at the samples 7, 3 and 5 with the scores 0.9, 0.8 and 0.7:
  the picks come at 3, 5, 7.
\<close>

theorem C9_encounter_order_witness:
  "\<exists>picks. extract_picks three_peak_index sorted_peak_score default_args = Inr [picks] \<and>
     0 < dim0 sorted_peak_score \<and>
     last_row three_peak_index 0 0 0 = [7, 3, 5] \<and>
     map phase_index picks = [3, 5, 7] \<and> sorted (map phase_index picks) \<and>
     map phase_type picks = [''P'', ''P'', ''P''] \<and>
     map station_id picks = [''0000'', ''0000'', ''0000'']"
proof -
  have v: "map_sum id (map (map (\<lambda>p. (phase_index p, phase_type p, station_id p))))
       (extract_picks three_peak_index sorted_peak_score default_args)
      = Inr [[(3, ''P'', ''0000''), (5, ''P'', ''0000''), (7, ''P'', ''0000'')]]"
    by code_simp
  then obtain picks where e: "extract_picks three_peak_index sorted_peak_score default_args = Inr [picks]"
    by (cases "extract_picks three_peak_index sorted_peak_score default_args") auto
  from v e have m: "map (\<lambda>p. (phase_index p, phase_type p, station_id p)) picks
      = [(3, ''P'', ''0000''), (5, ''P'', ''0000''), (7, ''P'', ''0000'')]"
    by simp
  have d: "0 < dim0 sorted_peak_score" by (simp add: sorted_peak_score_def)
  have l: "last_row three_peak_index 0 0 0 = [7, 3, 5]" by code_simp
  have d12: "dim1 sorted_peak_score = 1" "dim2 sorted_peak_score = 1"
    by (simp_all add: sorted_peak_score_def)
  from C9_encounter_order[OF e d, THEN conjunct1] obtain g where
    p: "[picks] ! 0 = concat (map (\<lambda>j. concat (map (g j) [0..<dim2 sorted_peak_score]))
                          [0..<dim1 sorted_peak_score])"
    and s: "\<forall>j<dim1 sorted_peak_score. \<forall>k<dim2 sorted_peak_score. sorted (map phase_index (g j k))"
    by blast
  from p have "picks = g 0 0" unfolding d12 by simp
  with s have srt: "sorted (map phase_index picks)" unfolding d12 by simp
  have "map fst (map (\<lambda>p. (phase_index p, phase_type p, station_id p)) picks) = [3, 5, 7]"
    and "map (fst \<circ> snd) (map (\<lambda>p. (phase_index p, phase_type p, station_id p)) picks)
      = [''P'', ''P'', ''P'']"
    and "map (snd \<circ> snd) (map (\<lambda>p. (phase_index p, phase_type p, station_id p)) picks)
      = [''0000'', ''0000'', ''0000'']"
    unfolding m by simp_all
  then have i: "map phase_index picks = [3, 5, 7]"
    and t: "map phase_type picks = [''P'', ''P'', ''P'']"
    and n: "map station_id picks = [''0000'', ''0000'', ''0000'']"
    by (simp_all add: comp_def)
  show ?thesis
    by (rule exI[of _ picks]) (intro conjI e d l i srt t n)
qed

subsection \<open>The scenario of the specification\<close>

lemma impulse_dims:
  "dim0 impulse_scores = 1" "dim1 impulse_scores = 2" "dim2 impulse_scores = 300"
  "dim3 impulse_scores = 1"
  by (simp_all add: impulse_scores_def)

lemma impulse_elem:
  "elem impulse_scores b c t s = (if c = 1 \<and> t = 150 then 0.95 else 0)"
  by (simp add: impulse_scores_def)

lemma impulse_smax_rows: "smax_rows 300 21 1 = 300"
  by (simp add: smax_rows_def pool_rows_def)

lemma impulse_kept_score:
  "kept_score impulse_scores 21 1 b 1 t s = (if t = 150 then 0.95 else 0)"
proof (cases "t = 150")
  case False
  then show ?thesis by (simp add: kept_score_def impulse_elem)
next
  case True
  have "elem impulse_scores b 1 150 s = centered_max impulse_scores (21 div 2) b 1 150 s"
    by (rule centered_max_eqI) (simp_all add: impulse_dims impulse_elem)
  then have "keep impulse_scores 21 1 (dim2 impulse_scores) b 1 150 s = 1"
    using keep_odd[of 21 150 impulse_scores b 1 s]
    by (simp add: centered_max_set impulse_dims)
  then have "150 \<in> set (survivors impulse_scores 21 1 b 1 s)"
    by (simp add: in_survivors impulse_dims impulse_smax_rows)
  with True show ?thesis by (simp add: kept_score_def impulse_elem)
qed

lemma impulse_default_K: "default_K 300 = 3"
  by code_simp

text \<open>
  Whatever the selection among equal scores, the peaks of the scenario are the impulse
  and two zeros, and the impulse is the only entry above 0.5.
\<close>

lemma impulse_detect:
  assumes c: "topk_contract topk"
  shows "\<exists>ts ti. detect_peaks topk impulse_scores vmin 21 1 0 = Inr (ts, ti) \<and>
      dim0 ts = 1 \<and> dim1 ts = 1 \<and> dim2 ts = 1 \<and> dim3 ts = 3 \<and>
      dim0 ti = 1 \<and> dim1 ti = 1 \<and> dim2 ti = 1 \<and> dim3 ti = 3 \<and>
      filter (\<lambda>e. 1 / 2 < snd e) (zip (last_row (int_tensor ti) 0 0 0) (last_row ts 0 0 0))
        = [(150, 0.95)]"
proof -
  have "\<exists>kept. suppress impulse_scores 21 1 = Inr kept"
    by (rule suppress_stride1) (simp_all add: impulse_dims)
  then obtain kept where k: "suppress impulse_scores 21 1 = Inr kept" ..
  have "\<exists>ts ti. detect_peaks topk impulse_scores vmin 21 1 0 = Inr (ts, ti)"
    unfolding detect_peaks_unfold[OF k] by (simp add: impulse_dims impulse_default_K)
  then obtain ts ti where d: "detect_peaks topk impulse_scores vmin 21 1 0 = Inr (ts, ti)"
    by blast
  note dims = detect_peaks_dims[OF d, unfolded impulse_dims]
  from dims(8) have d3: "dim3 ts = 3" by (simp add: impulse_default_K)
  with dims(7) have d3i: "dim3 ti = 3" by simp
  have sc: "source_channel impulse_scores 0 = 1"
    by (simp add: source_channel_def impulse_dims)
  note g = peak_group[OF c d, of 0 0 0, unfolded sc d3 impulse_dims impulse_kept_score]
  define i0 where "i0 = elem ti 0 0 0 0"
  define i1 where "i1 = elem ti 0 0 0 1"
  define i2 where "i2 = elem ti 0 0 0 2"
  have u3: "[0..<3] = [0, 1, 2::nat]" by (simp add: upt_conv_Cons eval_nat_numeral)
  have idx: "last_row ti 0 0 0 = [i0, i1, i2]"
    by (simp add: last_row_def d3i u3 i0_def i1_def i2_def)
  have s0: "elem ts 0 0 0 0 = (if i0 = 150 then 0.95 else 0)"
    unfolding i0_def by (rule g(6)[rule_format]) simp
  have s1: "elem ts 0 0 0 1 = (if i1 = 150 then 0.95 else 0)"
    unfolding i1_def by (rule g(6)[rule_format]) simp
  have s2: "elem ts 0 0 0 2 = (if i2 = 150 then 0.95 else 0)"
    unfolding i2_def by (rule g(6)[rule_format]) simp
  note s = s0 s1 s2
  have scs: "last_row ts 0 0 0 = [if i0 = 150 then 0.95 else 0, if i1 = 150 then 0.95 else 0,
      if i2 = 150 then 0.95 else 0]"
    unfolding last_row_def d3 u3 by (simp only: list.map s)
  have dist: "distinct [i0, i1, i2]" using g(3) unfolding idx .
  have mem: "150 \<in> set [i0, i1, i2]"
  proof (rule ccontr)
    assume n: "150 \<notin> set [i0, i1, i2]"
    then have "i0 \<noteq> 150" by auto
    with s(1) have z: "elem ts 0 0 0 0 = 0" by simp
    from g(7)[rule_format, of 150 0] n
    have "(if (150::nat) = 150 then 0.95 else (0::real)) \<le> elem ts 0 0 0 0"
      unfolding idx by simp
    with z show False by simp
  qed
  have "last_row (int_tensor ti) 0 0 0 = [int i0, int i1, int i2]"
    using idx by (simp add: last_row_def int_tensor_def d3i u3)
  with scs dist mem
  have f: "filter (\<lambda>e. 1 / 2 < snd e) (zip (last_row (int_tensor ti) 0 0 0) (last_row ts 0 0 0))
        = [(150, 0.95)]"
    by auto
  from d dims(1-6) d3 d3i f show ?thesis by (simp add: impulse_dims)
qed
lemma collect_map_Inr_I:
  assumes "\<And>x. x \<in> set xs \<Longrightarrow> f x = Inr (g x)"
  shows "collect (map f xs) = Inr (concat (map g xs))"
proof -
  have "map projr (map f xs) = map g xs"
    using assms by (simp add: comp_def)
  then show ?thesis
    unfolding collect_Inr using assms by (metis (no_types, lifting) imageE list.set_map)
qed

lemma make_pick_plain:
  assumes "arg_polarity_score a = None" and "arg_waveform a = None"
    and "i < length bti" and "j < length (arg_phases a)"
    and "datetime_add_seconds begin_i (float_of_int (fst (srt ! ii)) * dt_i) = Inr t"
  shows "make_pick a bti dt_i begin_i st wai i j k srt ii =
      Inr \<lparr>station_id = st, phase_index = fst (srt ! ii) + bti ! i,
           phase_time = isoformat_ms t, phase_score = fmt_3f (snd (srt ! ii)),
           phase_type = arg_phases a ! j, phase_polarity = None, phase_amplitude = None\<rparr>"
  by (simp add: make_pick_def Let_def nth_err_def assms)

text \<open>
  Without a waveform and polarity scores a group returns the picks of its entries above
  \<open>vmin\<close>, provided the look-ups succeed and the times of these entries are in range.
\<close>

lemma group_picks_plain:
  assumes p: "arg_polarity_score a = None" "arg_waveform a = None"
    and st: "station_of a bci i k = Inr st"
    and srt: "sorted_group ti ts i j k = Inr srt"
    and ij: "i < length bti" "j < length (arg_phases a)"
    and tm: "\<forall>e\<in>set srt. arg_vmin a < snd e \<longrightarrow>
               datetime_add_seconds begin_i (float_of_int (fst e) * dt_i) = Inr (tm e)"
  shows "group_picks ti ts a bci bti dt_i begin_i wai i j k =
      Inr (map (\<lambda>e. \<lparr>station_id = st, phase_index = fst e + bti ! i,
                     phase_time = isoformat_ms (tm e), phase_score = fmt_3f (snd e),
                     phase_type = arg_phases a ! j, phase_polarity = None,
                     phase_amplitude = None\<rparr>)
             (filter (\<lambda>e. arg_vmin a < snd e) srt))"
proof -
  let ?pk = "\<lambda>e. \<lparr>station_id = st, phase_index = fst e + bti ! i,
                     phase_time = isoformat_ms (tm e), phase_score = fmt_3f (snd e),
                     phase_type = arg_phases a ! j, phase_polarity = None,
                     phase_amplitude = None\<rparr>"
  let ?h = "\<lambda>ii. if arg_vmin a < snd (srt ! ii) then [?pk (srt ! ii)] else []"
  have e: "entry_picks a bti dt_i begin_i st wai i j k srt ii = Inr (?h ii)"
    if "ii \<in> set [0..<length srt]" for ii
  proof (cases "arg_vmin a < snd (srt ! ii)")
    case True
    from that have "srt ! ii \<in> set srt" by simp
    with tm True
    have "datetime_add_seconds begin_i (float_of_int (fst (srt ! ii)) * dt_i) = Inr (tm (srt ! ii))"
      by blast
    from make_pick_plain[OF p ij this] True show ?thesis
      by (simp add: entry_picks_def)
  next
    case False
    then show ?thesis by (simp add: entry_picks_def)
  qed
  have "collect (map (entry_picks a bti dt_i begin_i st wai i j k srt) [0..<length srt])
      = Inr (concat (map ?h [0..<length srt]))"
    by (rule collect_map_Inr_I) (rule e)
  also have "concat (map ?h [0..<length srt])
      = map (\<lambda>ii. ?pk (srt ! ii)) (filter (\<lambda>ii. arg_vmin a < snd (srt ! ii)) [0..<length srt])"
    by (rule concat_map_filter) simp
  also have "\<dots> = map ?pk (filter (\<lambda>e. arg_vmin a < snd e) srt)"
    by (rule map_filter_nth)
  finally show ?thesis
    by (simp add: group_picks_def st srt)
qed

lemma impulse_begin:
  "begin_of (arg_begin_time impulse_args) 0
     = Inr \<lparr>d_year = 2024, d_month = 1, d_day = 1, d_hour = 0, d_minute = 0, d_second = 0,
            d_microsecond = 0\<rparr>"
  by code_simp

lemma impulse_time:
  "datetime_add_seconds \<lparr>d_year = 2024, d_month = 1, d_day = 1, d_hour = 0, d_minute = 0,
       d_second = 0, d_microsecond = 0\<rparr> (float_of_int 150 * 0.01)
     = Inr \<lparr>d_year = 2024, d_month = 1, d_day = 1, d_hour = 0, d_minute = 0, d_second = 1,
            d_microsecond = 500000\<rparr>"
  by code_simp

lemma impulse_formats:
  "isoformat_ms \<lparr>d_year = 2024, d_month = 1, d_day = 1, d_hour = 0, d_minute = 0, d_second = 1,
       d_microsecond = 500000\<rparr> = ''2024-01-01T00:00:01.500''"
  "fmt_3f 0.95 = ''0.950''" "fmt_3f (19 / 20) = ''0.950''" "fmt_04d 0 = ''0000''"
  by code_simp+

lemma impulse_args_fields:
  "arg_file_name impulse_args = None" "arg_station_id impulse_args = None"
  "arg_phases impulse_args = [''P'', ''S'']" "arg_vmin impulse_args = 1 / 2"
  "arg_dt impulse_args = Scalar 0.01" "arg_polarity_score impulse_args = None"
  "arg_waveform impulse_args = None" "arg_begin_channel_index impulse_args = None"
  "arg_begin_time_index impulse_args = None"
  by (simp_all add: impulse_args_def)

text \<open>The scenario, for every selection that meets the contract of \<open>torch.topk\<close>.\<close>

lemma impulse_scenario:
  assumes c: "topk_contract topk"
  shows "detect_then_extract topk impulse_scores 21 impulse_args =
     Inr [[\<lparr>station_id = ''0000'', phase_index = 150, phase_time = ''2024-01-01T00:00:01.500'',
            phase_score = ''0.950'', phase_type = ''P'', phase_polarity = None,
            phase_amplitude = None\<rparr>]]"
proof -
  let ?a = impulse_args
  let ?b = "\<lparr>d_year = 2024, d_month = 1, d_day = 1, d_hour = 0, d_minute = 0, d_second = 0,
            d_microsecond = 0::int\<rparr>"
  let ?pick = "\<lparr>station_id = ''0000'', phase_index = 150, phase_time = ''2024-01-01T00:00:01.500'',
            phase_score = ''0.950'', phase_type = ''P'', phase_polarity = None,
            phase_amplitude = None\<rparr>"
  from impulse_detect[OF c, of "arg_vmin ?a"] obtain ts ti
    where d: "detect_peaks topk impulse_scores (arg_vmin ?a) 21 1 0 = Inr (ts, ti)"
      and ds: "dim0 ts = 1" "dim1 ts = 1" "dim2 ts = 1" "dim3 ts = 3"
      and di: "dim0 ti = 1" "dim1 ti = 1" "dim2 ti = 1" "dim3 ti = 3"
      and f: "filter (\<lambda>e. 1 / 2 < snd e) (zip (last_row (int_tensor ti) 0 0 0) (last_row ts 0 0 0))
        = [(150, 0.95)]"
    by blast
  let ?ti = "int_tensor ti"
  have dti: "dim0 ?ti = 1" "dim1 ?ti = 1" "dim2 ?ti = 1" "dim3 ?ti = 3"
    by (simp_all add: int_tensor_def di)
  define srt where "srt = group_entries ?ti ts 0 0 0"
  have sg: "sorted_group ?ti ts 0 0 0 = Inr srt"
    by (simp add: sorted_group_def dti ds srt_def group_entries_def)
  have fs: "filter (\<lambda>e. arg_vmin ?a < snd e) srt = [(150, 0.95)]"
    unfolding srt_def group_entries_def filter_sort impulse_args_fields f by simp
  have st: "station_of ?a [0] 0 0 = Inr ''0000''"
    by (simp add: station_of_def impulse_args_fields nth_err_def impulse_formats)
  define tm :: "int \<times> real \<Rightarrow> datetime" where
    "tm e = \<lparr>d_year = 2024, d_month = 1, d_day = 1, d_hour = 0, d_minute = 0, d_second = 1,
            d_microsecond = 500000\<rparr>" for e
  have tmf: "\<forall>e\<in>set srt. arg_vmin ?a < snd e \<longrightarrow>
      datetime_add_seconds ?b (float_of_int (fst e) * (1 / 100)) = Inr (tm e)"
  proof (intro ballI impI)
    fix e assume "e \<in> set srt" "arg_vmin ?a < snd e"
    then have "e \<in> set (filter (\<lambda>e. arg_vmin ?a < snd e) srt)" by simp
    then have "e = (150, 0.95)" unfolding fs by simp
    then show "datetime_add_seconds ?b (float_of_int (fst e) * (1 / 100)) = Inr (tm e)"
      using impulse_time by (simp add: tm_def)
  qed
  have g: "group_picks ?ti ts ?a [0] [0] (1 / 100) ?b 0 0 0 0 = Inr [?pick]"
    using group_picks_plain[OF impulse_args_fields(6,7) st sg _ _ tmf, of "[0]" 0]
    unfolding fs by (simp add: impulse_args_fields tm_def impulse_formats)
  have cl: "class_picks ?ti ts ?a [0] [0] (1 / 100) ?b 0 0 = Inr [?pick]"
    by (simp add: class_picks_def window_amp_of_def impulse_args_fields ds g)
  have pf: "picks_per_file ?ti ts ?a [1 / 100] [0] [0] 0 = Inr [?pick]"
    using impulse_begin
    by (simp add: picks_per_file_def impulse_args_fields ds cl)
  have "extract_picks ?ti ts ?a = Inr [[?pick]]"
    by (simp add: extract_picks_def resolve_dt_def resolve_offsets_def impulse_args_fields ds pf)
  then show ?thesis
    by (simp add: detect_then_extract_def d)
qed
lemma map_pair_eq:
  assumes "map f xs = map f' l" and "map h xs = map h' l"
  shows "map (\<lambda>x. (f x, h x)) xs = map (\<lambda>e. (f' e, h' e)) l"
proof -
  from assms(1) have len: "length xs = length l" by (rule map_eq_imp_length_eq)
  show ?thesis
  proof (rule nth_equalityI)
    show "length (map (\<lambda>x. (f x, h x)) xs) = length (map (\<lambda>e. (f' e, h' e)) l)"
      using len by simp
  next
    fix n assume "n < length (map (\<lambda>x. (f x, h x)) xs)"
    then have n: "n < length xs" "n < length l" using len by simp_all
    from assms(1) n have "f (xs ! n) = f' (l ! n)" by (metis nth_map)
    moreover from assms(2) n have "h (xs ! n) = h' (l ! n)" by (metis nth_map)
    ultimately show "map (\<lambda>x. (f x, h x)) xs ! n = map (\<lambda>e. (f' e, h' e)) l ! n"
      using n by simp
  qed
qed

text \<open>
  Claim C2. For every batch element \<open>i\<close> the picks carry, entry by entry, the time index
  plus \<open>begin_time_index[i]\<close> (0 when the argument is absent) as \<open>phase_index\<close>, and the
  anchor time plus the time index times \<open>dt[i]\<close> seconds, without that offset, in
  milliseconds as \<open>phase_time\<close>. On the scenario of the specification, \<open>detect_peaks\<close> with
  a kernel of 21 followed by \<open>extract_picks\<close> yields exactly one pick, with index 150, time
  2024-01-01T00:00:01.500, score 0.950 and type P, whatever the selection that
  \<open>torch.topk\<close> makes among equal scores.
\<close>

theorem C2_index_and_time:
  assumes "extract_picks topk_index topk_score a = Inr picks" and "i < dim0 topk_score"
  shows "(\<exists>dt begin_i.
       resolve_dt (arg_dt a) (dim0 topk_score) = Inr dt \<and>
       dt ! i = (case arg_dt a of Scalar x \<Rightarrow> x | PerBatch xs \<Rightarrow> xs ! i) \<and>
       begin_of (arg_begin_time a) i = Inr begin_i \<and>
       map (\<lambda>p. (phase_index p, phase_time p)) (picks ! i) =
         concat (map (\<lambda>j. concat (map (\<lambda>k.
           map (\<lambda>e. (fst e + resolve_offsets (arg_begin_time_index a) (dim0 topk_score) ! i,
                     isoformat_ms (projr (datetime_add_seconds begin_i
                                            (float_of_int (fst e) * dt ! i)))))
             (filter (\<lambda>e. arg_vmin a < snd e) (group_entries topk_index topk_score i j k)))
           [0..<dim2 topk_score])) [0..<dim1 topk_score]) \<and>
       (\<forall>j<dim1 topk_score. \<forall>k<dim2 topk_score.
          \<forall>e\<in>set (group_entries topk_index topk_score i j k). arg_vmin a < snd e \<longrightarrow>
            (\<exists>t. datetime_add_seconds begin_i (float_of_int (fst e) * dt ! i) = Inr t))) \<and>
     (arg_begin_time_index a = None \<longrightarrow>
        resolve_offsets (arg_begin_time_index a) (dim0 topk_score) ! i = 0) \<and>
     (\<forall>topk. topk_contract topk \<longrightarrow>
        detect_then_extract topk impulse_scores 21 impulse_args =
          Inr [[\<lparr>station_id = ''0000'', phase_index = 150,
                 phase_time = ''2024-01-01T00:00:01.500'', phase_score = ''0.950'',
                 phase_type = ''P'', phase_polarity = None, phase_amplitude = None\<rparr>]])"
proof -
  let ?off = "resolve_offsets (arg_begin_time_index a) (dim0 topk_score) ! i"
  from picks_by_entries[OF assms] obtain dt begin_i g where
    dt: "resolve_dt (arg_dt a) (dim0 topk_score) = Inr dt"
    and b: "begin_of (arg_begin_time a) i = Inr begin_i"
    and p: "picks ! i = concat (map (\<lambda>j. concat (map (g j) [0..<dim2 topk_score])) [0..<dim1 topk_score])"
    and f: "\<And>j k. j < dim1 topk_score \<Longrightarrow> k < dim2 topk_score \<Longrightarrow>
      map phase_index (g j k) = map (\<lambda>e. fst e + ?off)
             (filter (\<lambda>e. arg_vmin a < snd e) (group_entries topk_index topk_score i j k)) \<and>
      map phase_time (g j k) =
           map (\<lambda>e. isoformat_ms (projr (datetime_add_seconds begin_i (float_of_int (fst e) * dt ! i))))
             (filter (\<lambda>e. arg_vmin a < snd e) (group_entries topk_index topk_score i j k)) \<and>
      (\<forall>e\<in>set (group_entries topk_index topk_score i j k). arg_vmin a < snd e \<longrightarrow>
             (\<exists>t. datetime_add_seconds begin_i (float_of_int (fst e) * dt ! i) = Inr t))"
    by blast
  have m: "map (\<lambda>p. (phase_index p, phase_time p)) (g j k) =
      map (\<lambda>e. (fst e + ?off,
                isoformat_ms (projr (datetime_add_seconds begin_i (float_of_int (fst e) * dt ! i)))))
        (filter (\<lambda>e. arg_vmin a < snd e) (group_entries topk_index topk_score i j k))"
    if "j < dim1 topk_score" "k < dim2 topk_score" for j k
    using f[OF that] by (intro map_pair_eq) simp_all
  have 1: "map (\<lambda>p. (phase_index p, phase_time p)) (picks ! i) =
         concat (map (\<lambda>j. concat (map (\<lambda>k.
           map (\<lambda>e. (fst e + ?off,
                     isoformat_ms (projr (datetime_add_seconds begin_i
                                            (float_of_int (fst e) * dt ! i)))))
             (filter (\<lambda>e. arg_vmin a < snd e) (group_entries topk_index topk_score i j k)))
           [0..<dim2 topk_score])) [0..<dim1 topk_score])"
    unfolding p map_concat2 by (rule concat2_cong) (rule m)
  have 2: "\<forall>j<dim1 topk_score. \<forall>k<dim2 topk_score.
          \<forall>e\<in>set (group_entries topk_index topk_score i j k). arg_vmin a < snd e \<longrightarrow>
            (\<exists>t. datetime_add_seconds begin_i (float_of_int (fst e) * dt ! i) = Inr t)"
    using f by blast
  note 3 = resolve_dt_Inr[OF dt assms(2)]
  have A: "\<exists>dt begin_i.
       resolve_dt (arg_dt a) (dim0 topk_score) = Inr dt \<and>
       dt ! i = (case arg_dt a of Scalar x \<Rightarrow> x | PerBatch xs \<Rightarrow> xs ! i) \<and>
       begin_of (arg_begin_time a) i = Inr begin_i \<and>
       map (\<lambda>p. (phase_index p, phase_time p)) (picks ! i) =
         concat (map (\<lambda>j. concat (map (\<lambda>k.
           map (\<lambda>e. (fst e + ?off,
                     isoformat_ms (projr (datetime_add_seconds begin_i
                                            (float_of_int (fst e) * dt ! i)))))
             (filter (\<lambda>e. arg_vmin a < snd e) (group_entries topk_index topk_score i j k)))
           [0..<dim2 topk_score])) [0..<dim1 topk_score]) \<and>
       (\<forall>j<dim1 topk_score. \<forall>k<dim2 topk_score.
          \<forall>e\<in>set (group_entries topk_index topk_score i j k). arg_vmin a < snd e \<longrightarrow>
            (\<exists>t. datetime_add_seconds begin_i (float_of_int (fst e) * dt ! i) = Inr t))"
    by (rule exI[of _ dt], rule exI[of _ begin_i]) (intro conjI dt 3 b 1 2)
  have B: "arg_begin_time_index a = None \<longrightarrow> ?off = 0"
    using assms(2) by (simp add: resolve_offsets_def)
  have C: "\<forall>topk. topk_contract topk \<longrightarrow>
        detect_then_extract topk impulse_scores 21 impulse_args =
          Inr [[\<lparr>station_id = ''0000'', phase_index = 150,
                 phase_time = ''2024-01-01T00:00:01.500'', phase_score = ''0.950'',
                 phase_type = ''P'', phase_polarity = None, phase_amplitude = None\<rparr>]]"
    using impulse_scenario by blast
  show ?thesis by (intro conjI A B C)
qed

text \<open>
  Two stations with peaks at the samples 5 and 2, the defaults of the arguments and an
  offset of 1000 for the batch element: the indices carry the offset, the times do not.
  And the scenario, with the selection that takes the earliest of equal scores.
\<close>

theorem C2_index_and_time_witness:
  "\<exists>picks. extract_picks two_station_index two_station_score offset_args = Inr [picks] \<and>
     0 < dim0 two_station_score \<and>
     arg_begin_time_index offset_args = Some [1000] \<and>
     map (\<lambda>p. (phase_index p, phase_time p)) picks =
       [(1005, ''1970-01-01T00:00:00.050''), (1002, ''1970-01-01T00:00:00.020'')] \<and>
     detect_then_extract topk_first impulse_scores 21 impulse_args =
       Inr [[\<lparr>station_id = ''0000'', phase_index = 150,
              phase_time = ''2024-01-01T00:00:01.500'', phase_score = ''0.950'',
              phase_type = ''P'', phase_polarity = None, phase_amplitude = None\<rparr>]]"
proof -
  have v: "map_sum id (map (map phase_index))
       (extract_picks two_station_index two_station_score offset_args) = Inr [[1005, 1002]]"
    by code_simp
  then obtain picks where e: "extract_picks two_station_index two_station_score offset_args = Inr [picks]"
    by (cases "extract_picks two_station_index two_station_score offset_args") auto
  have d: "0 < dim0 two_station_score" by (simp add: two_station_score_def)
  have o: "arg_begin_time_index offset_args = Some [1000]" by (simp add: offset_args_def)
  note t = C2_index_and_time[OF e d]
  from t[THEN conjunct1] obtain dt begin_i where
    dt: "dt ! 0 = (case arg_dt offset_args of Scalar x \<Rightarrow> x | PerBatch xs \<Rightarrow> xs ! 0)"
    and b: "begin_of (arg_begin_time offset_args) 0 = Inr begin_i"
    and m: "map (\<lambda>p. (phase_index p, phase_time p)) ([picks] ! 0) =
         concat (map (\<lambda>j. concat (map (\<lambda>k.
           map (\<lambda>e. (fst e + resolve_offsets (arg_begin_time_index offset_args) (dim0 two_station_score) ! 0,
                     isoformat_ms (projr (datetime_add_seconds begin_i
                                            (float_of_int (fst e) * dt ! 0)))))
             (filter (\<lambda>e. arg_vmin offset_args < snd e) (group_entries two_station_index two_station_score 0 j k)))
           [0..<dim2 two_station_score])) [0..<dim1 two_station_score])"
    by blast
  have b0: "begin_of (arg_begin_time offset_args) 0 = Inr (projr (begin_of None 0))"
    by code_simp
  with b have bi: "begin_i = projr (begin_of None 0)" by simp
  have dt0: "dt ! 0 = 1 / 100" unfolding dt by (simp add: offset_args_def default_args_def)
  have r: "concat (map (\<lambda>j. concat (map (\<lambda>k.
           map (\<lambda>e. (fst e + resolve_offsets (arg_begin_time_index offset_args) (dim0 two_station_score) ! 0,
                     isoformat_ms (projr (datetime_add_seconds (projr (begin_of None 0))
                                            (float_of_int (fst e) * (1 / 100))))))
             (filter (\<lambda>e. arg_vmin offset_args < snd e) (group_entries two_station_index two_station_score 0 j k)))
           [0..<dim2 two_station_score])) [0..<dim1 two_station_score])
      = [(1005, ''1970-01-01T00:00:00.050''), (1002, ''1970-01-01T00:00:00.020'')]"
    by code_simp
  from m have 1: "map (\<lambda>p. (phase_index p, phase_time p)) picks =
       [(1005, ''1970-01-01T00:00:00.050''), (1002, ''1970-01-01T00:00:00.020'')]"
    unfolding bi dt0 r by simp
  have 2: "detect_then_extract topk_first impulse_scores 21 impulse_args =
       Inr [[\<lparr>station_id = ''0000'', phase_index = 150,
              phase_time = ''2024-01-01T00:00:01.500'', phase_score = ''0.950'',
              phase_type = ''P'', phase_polarity = None, phase_amplitude = None\<rparr>]]"
    by (rule t[THEN conjunct2, THEN conjunct2, rule_format, OF topk_first_contract])
  show ?thesis
    by (rule exI[of _ picks]) (intro conjI e d o 1 2)
qed

subsection \<open>The amplitude window\<close>







subsection \<open>Merging pick files\<close>

lemma first_line_Cons:
  "first_line (l # ls) = (if l \<noteq> [] then [hd l] else first_line ls)"
  by (simp add: first_line_def)

lemma data_rows_Cons: "data_rows (l # ls) = drop 1 l @ data_rows ls"
  by (simp add: data_rows_def)

lemma merge_lines_eq:
  "merge_lines contents header picks
     = picks @ (if header = None then first_line contents else []) @ data_rows contents"
proof (induction contents arbitrary: header picks)
  case Nil
  show ?case by (simp add: first_line_def data_rows_def)
next
  case (Cons tmp rest)
  show ?case
  proof (cases "0 < length tmp \<and> header = None")
    case True
    then have "tmp ! 0 = hd tmp" by (simp add: hd_conv_nth)
    with True show ?thesis
      by (simp add: Cons.IH first_line_Cons data_rows_Cons)
  next
    case False
    then show ?thesis
      by (auto simp: Cons.IH first_line_Cons data_rows_Cons)
  qed
qed

lemma write_lines_eq:
  "write_lines contents first_non_empty out num_picks
     = (out @ (if first_non_empty then first_line contents else []) @ data_rows contents,
        num_picks + int (length (data_rows contents)))"
proof (induction contents arbitrary: first_non_empty out num_picks)
  case Nil
  show ?case by (simp add: first_line_def data_rows_def)
next
  case (Cons lines rest)
  have n: "max 0 (int (length lines) - 1) = int (length (drop 1 lines))"
    by (cases lines) simp_all
  show ?case
  proof (cases "first_non_empty \<and> 0 < length lines")
    case True
    then have "lines ! 0 = hd lines" by (simp add: hd_conv_nth)
    with True show ?thesis
      by (simp add: Cons.IH first_line_Cons data_rows_Cons n del: drop_Suc_Cons)
  next
    case False
    then show ?thesis
      by (auto simp: Cons.IH first_line_Cons data_rows_Cons n simp del: drop_Suc_Cons)
  qed
qed

lemma merge_group_eq:
  "merge_group files = first_line (map snd (sort_key fst files)) @ data_rows (map snd (sort_key fst files))"
  by (simp add: merge_group_def merge_lines_eq)

lemma length_first_line:
  "length (first_line contents) = (if \<exists>l\<in>set contents. l \<noteq> [] then 1 else 0)"
proof (cases "filter (\<lambda>l. l \<noteq> []) contents")
  case Nil
  then have "\<not> (\<exists>l\<in>set contents. l \<noteq> [])"
    by (metis (mono_tags, lifting) filter_empty_conv)
  with Nil show ?thesis by (simp add: first_line_def)
next
  case (Cons l ls)
  then have "l \<in> set (filter (\<lambda>l. l \<noteq> []) contents)" by simp
  then have "\<exists>l\<in>set contents. l \<noteq> []" by auto
  with Cons show ?thesis by (simp add: first_line_def)
qed

lemma data_rows_filter: "data_rows contents = data_rows (filter (\<lambda>l. 1 < length l) contents)"
proof (induction contents)
  case Nil
  show ?case by simp
next
  case (Cons l ls)
  have "\<not> 1 < length l \<Longrightarrow> drop 1 l = []" by simp
  with Cons show ?case by (auto simp: data_rows_Cons)
qed

text \<open>
  Claim C5, as the code has it. \<open>merge_das_picks\<close> writes the groups whose merged lines,
  the header row included, number more than \<open>min_picks\<close>, and no others. The merged
  lines are one header row (when a file of the group has a line) and the data rows.
  So a group with a header row is written exactly when it has at least \<open>min_picks\<close>
  data rows: a group with exactly \<open>min_picks\<close> data rows is written, one with a row
  less is dropped.
\<close>

theorem C5_minimum_picks:
  "fst (merge_das_picks files min_picks) =
      map (\<lambda>g. (fst g @ ''.csv'', merge_group (snd g)))
        (filter (\<lambda>g. min_picks <
             int (length (first_line (map snd (sort_key fst (snd g)))))
             + int (length (data_rows (map snd (sort_key fst (snd g))))))
           (file_group files)) \<and>
   (\<forall>g \<in> set (file_group files).
      (\<exists>l \<in> set (map snd (sort_key fst (snd g))). l \<noteq> []) \<longrightarrow>
        (min_picks < int (length (merge_group (snd g)))
           \<longleftrightarrow> min_picks \<le> int (length (data_rows (map snd (sort_key fst (snd g)))))))"
proof -
  have l: "int (length (merge_group fs)) =
      int (length (first_line (map snd (sort_key fst fs))))
        + int (length (data_rows (map snd (sort_key fst fs))))" for fs :: "csv_file list"
    by (simp add: merge_group_eq)
  have 1: "fst (merge_das_picks files min_picks) =
      map (\<lambda>g. (fst g @ ''.csv'', merge_group (snd g)))
        (filter (\<lambda>g. min_picks <
             int (length (first_line (map snd (sort_key fst (snd g)))))
             + int (length (data_rows (map snd (sort_key fst (snd g))))))
           (file_group files))"
    unfolding merge_das_picks_def Let_def fst_conv l by (rule refl)
  have 2: "min_picks < int (length (merge_group (snd g)))
           \<longleftrightarrow> min_picks \<le> int (length (data_rows (map snd (sort_key fst (snd g)))))"
    if "\<exists>l \<in> set (map snd (sort_key fst (snd g))). l \<noteq> []" for g :: "string \<times> csv_file list"
  proof -
    from that have "int (length (first_line (map snd (sort_key fst (snd g))))) = 1"
      unfolding length_first_line by simp
    then show ?thesis unfolding l by linarith
  qed
  from 1 2 show ?thesis by blast
qed

text \<open>
  Claim C5 as stated fails: with \<open>min_picks = 2\<close>, a group of one file with a header and
  exactly two data rows is written.
\<close>

theorem C5_counterexample:
  "merge_das_picks two_row_files 2 = ([(''ev.csv'', [''h'', ''a'', ''b''])], 3) \<and>
   data_rows (map snd two_row_files) = [''a'', ''b'']"
  by code_simp

text \<open>The same group: it has a header and two data rows, and it is written for \<open>min_picks = 2\<close>.\<close>

theorem C5_minimum_picks_witness:
  "file_group two_row_files = [(''ev'', two_row_files)] \<and>
   [''h'', ''a'', ''b''] \<in> set (map snd (sort_key fst two_row_files)) \<and>
   (2::int) \<le> int (length (data_rows (map snd (sort_key fst two_row_files)))) \<and>
   (2::int) < int (length (merge_group two_row_files)) \<and>
   fst (merge_das_picks two_row_files 2) = [(''ev.csv'', merge_group two_row_files)]"
proof -
  have g: "file_group two_row_files = [(''ev'', two_row_files)]" by code_simp
  have m: "[''h'', ''a'', ''b''] \<in> set (map snd (sort_key fst two_row_files))" by code_simp
  have d: "(2::int) \<le> int (length (data_rows (map snd (sort_key fst two_row_files))))"
    by code_simp
  note t = C5_minimum_picks[of two_row_files 2]
  have e: "\<exists>l \<in> set (map snd (sort_key fst (snd (''ev'', two_row_files)))). l \<noteq> []"
    by code_simp
  have "(''ev'', two_row_files) \<in> set (file_group two_row_files)" by (simp add: g)
  from t[THEN conjunct2, rule_format, OF this e] d
  have w: "(2::int) < int (length (merge_group two_row_files))" by simp
  have "int (length (merge_group two_row_files)) =
      int (length (first_line (map snd (sort_key fst two_row_files))))
        + int (length (data_rows (map snd (sort_key fst two_row_files))))"
    by (simp add: merge_group_eq)
  with w t[THEN conjunct1]
  have o: "fst (merge_das_picks two_row_files 2) = [(''ev.csv'', merge_group two_row_files)]"
    by (simp add: g)
  show ?thesis by (intro conjI g m d w o)
qed

text \<open>
  Claim C7, as the code has it. In both merges the merged lines are one header row, the
  first line of the first file in sorted order that has any line (a file of a header
  only included, an empty file skipped), followed by the lines after the first of
  every file, in sorted order. Files that are empty or hold a header only contribute
  no data row.
\<close>

theorem C7_header_selection:
  "fst (merge_seismic_picks files)
     = first_line (map snd (sort_key fst files)) @ data_rows (map snd (sort_key fst files)) \<and>
   (\<forall>f \<in> set (fst (merge_das_picks files min_picks)).
      \<exists>g \<in> set (file_group files). fst f = fst g @ ''.csv'' \<and>
        snd f = first_line (map snd (sort_key fst (snd g)))
                  @ data_rows (map snd (sort_key fst (snd g)))) \<and>
   first_line (map snd (sort_key fst files))
     = first_line (filter (\<lambda>l. l \<noteq> []) (map snd (sort_key fst files))) \<and>
   data_rows (map snd (sort_key fst files))
     = data_rows (filter (\<lambda>l. 1 < length l) (map snd (sort_key fst files)))"
proof -
  have 1: "fst (merge_seismic_picks files)
     = first_line (map snd (sort_key fst files)) @ data_rows (map snd (sort_key fst files))"
    by (simp add: merge_seismic_picks_def write_lines_eq)
  have 2: "\<forall>f \<in> set (fst (merge_das_picks files min_picks)).
      \<exists>g \<in> set (file_group files). fst f = fst g @ ''.csv'' \<and>
        snd f = first_line (map snd (sort_key fst (snd g)))
                  @ data_rows (map snd (sort_key fst (snd g)))"
  proof
    fix f assume "f \<in> set (fst (merge_das_picks files min_picks))"
    then obtain g where g: "g \<in> set (file_group files)"
      and f: "f = (fst g @ ''.csv'', merge_group (snd g))"
      unfolding merge_das_picks_def Let_def by auto
    show "\<exists>g \<in> set (file_group files). fst f = fst g @ ''.csv'' \<and>
        snd f = first_line (map snd (sort_key fst (snd g)))
                  @ data_rows (map snd (sort_key fst (snd g)))"
      by (rule bexI[OF _ g]) (simp add: f merge_group_eq)
  qed
  have 3: "first_line cs = first_line (filter (\<lambda>l. l \<noteq> []) cs)" for cs :: "string list list"
    by (simp add: first_line_def)
  from 1 2 3 data_rows_filter show ?thesis by blast
qed

text \<open>
  Claim C7 as stated fails: of a file with the header \<open>h1\<close> only and a later file with
  the header \<open>h2\<close> and a row, both merges take \<open>h1\<close>, the header of the file without data
  rows.
\<close>

theorem C7_counterexample:
  "map snd (sort_key fst patch_files) = [[], [''h1''], [''h2'', ''row'']] \<and>
   first_line_with_data (map snd (sort_key fst patch_files)) = [''h2''] \<and>
   merge_das_picks patch_files 0 = ([(''ev.csv'', [''h1'', ''row''])], 2) \<and>
   merge_seismic_picks patch_files = ([''h1'', ''row''], 1)"
  by code_simp

text \<open>The same three files: the merged lines are the header of the second file and the row of the third.\<close>

theorem C7_header_selection_witness:
  "fst (merge_seismic_picks patch_files) = [''h1'', ''row''] \<and>
   first_line (map snd (sort_key fst patch_files)) = [''h1''] \<and>
   data_rows (map snd (sort_key fst patch_files)) = [''row''] \<and>
   fst (merge_das_picks patch_files 0) = [(''ev.csv'', [''h1'', ''row''])] \<and>
   (\<exists>g \<in> set (file_group patch_files). fst g = ''ev'' \<and>
      first_line (map snd (sort_key fst (snd g))) @ data_rows (map snd (sort_key fst (snd g)))
        = [''h1'', ''row''])"
proof -
  have a: "first_line (map snd (sort_key fst patch_files)) = [''h1'']" by code_simp
  have b: "data_rows (map snd (sort_key fst patch_files)) = [''row'']" by code_simp
  have c: "fst (merge_das_picks patch_files 0) = [(''ev.csv'', [''h1'', ''row''])]" by code_simp
  note t = C7_header_selection[of patch_files 0]
  from t[THEN conjunct1] have 1: "fst (merge_seismic_picks patch_files) = [''h1'', ''row'']"
    unfolding a b by simp
  from t[THEN conjunct2, THEN conjunct1] c
  have "\<exists>g \<in> set (file_group patch_files). ''ev.csv'' = fst g @ ''.csv'' \<and>
        [''h1'', ''row''] = first_line (map snd (sort_key fst (snd g)))
                  @ data_rows (map snd (sort_key fst (snd g)))"
    by simp
  then obtain g where g: "g \<in> set (file_group patch_files)"
    and n: "''ev.csv'' = fst g @ ''.csv''"
    and l: "[''h1'', ''row''] = first_line (map snd (sort_key fst (snd g)))
                  @ data_rows (map snd (sort_key fst (snd g)))"
    by blast
  from n have "fst g = ''ev''" by simp
  with l have "fst g = ''ev'' \<and>
      first_line (map snd (sort_key fst (snd g))) @ data_rows (map snd (sort_key fst (snd g)))
        = [''h1'', ''row'']"
    by simp
  then have 2: "\<exists>g \<in> set (file_group patch_files). fst g = ''ev'' \<and>
      first_line (map snd (sort_key fst (snd g))) @ data_rows (map snd (sort_key fst (snd g)))
        = [''h1'', ''row'']"
    by (rule bexI[OF _ g])
  show ?thesis by (intro conjI 1 a b c 2)
qed

end
